theory Spec2Isabelle
  imports Complex_Main "HOL-Library.Sublist"
begin

section \<open>The W&B callback for fast.ai: a shallow embedding of wandb/fastai/__init__.py\<close>

text \<open>
  The module defines one class, \<^verbatim>\<open>WandbCallback\<close>, with a constructor and three
  lifecycle methods. The methods return nothing; what they do is change the callback
  object, the learner, the process-wide class attribute \<^verbatim>\<open>watch_called\<close>, the file
  system, and call the logging backend. The embedding passes all of that explicitly:
  a record for the callback object, a record for the learner, a record for the rest of
  the process, and a trace of the calls made to the collaborators.
\<close>

subsection \<open>Values\<close>

text \<open>
  Python floats as far as the code uses them: they are compared and stored, never
  computed with. \<open>best\<close> is \<^verbatim>\<open>float('inf')\<close> or \<^verbatim>\<open>-float('inf')\<close> after
  \<^verbatim>\<open>on_train_begin\<close>, and a diverged loss is \<^verbatim>\<open>nan\<close>.
\<close>

datatype pyfloat = NaN | NegInf | Fin real | PosInf

text \<open>\<^verbatim>\<open>a < b\<close> on floats (IEEE: every comparison with \<^verbatim>\<open>nan\<close> is false).\<close>

fun float_less :: "pyfloat \<Rightarrow> pyfloat \<Rightarrow> bool" where
  "float_less NaN b = False"
| "float_less a NaN = False"
| "float_less PosInf b = False"
| "float_less a NegInf = False"
| "float_less NegInf b = True"
| "float_less a PosInf = True"
| "float_less (Fin x) (Fin y) = (x < y)"

text \<open>
  The comparison stored in \<^verbatim>\<open>self.operator\<close>: \<^verbatim>\<open>np.less\<close> or \<^verbatim>\<open>np.greater\<close>.
\<close>

datatype cmp_operator = Less | Greater

fun apply_operator :: "cmp_operator \<Rightarrow> pyfloat \<Rightarrow> pyfloat \<Rightarrow> bool" where
  "apply_operator Less a b = float_less a b"
| "apply_operator Greater a b = float_less b a"

text \<open>The entries of \<^verbatim>\<open>[epoch, smooth_loss] + last_metrics\<close>: an int, then floats.\<close>

datatype stat = IntS int | FloatS pyfloat

text \<open>The exceptions the code can raise; a \<^verbatim>\<open>ValueError\<close> with its message.\<close>

datatype error = ValueError string | TypeError

text \<open>Truthiness of the two optional arguments tested with \<^verbatim>\<open>if\<close>.\<close>

fun truthy :: "'a list option \<Rightarrow> bool" where
  "truthy None = False"
| "truthy (Some []) = False"
| "truthy (Some (x # xs)) = True"

subsection \<open>Collaborators\<close>

text \<open>
  A validation item is a pair \<^verbatim>\<open>(x, y)\<close>; of \<^verbatim>\<open>x\<close> the code reads \<^verbatim>\<open>x.data\<close> and of
  \<^verbatim>\<open>y\<close> its text (\<^verbatim>\<open>'{}'.format(y)\<close>), so an item is the pair of those two.
\<close>

type_synonym item = "string \<times> string"

text \<open>\<^verbatim>\<open>wandb.Image(data, caption=...)\<close>.\<close>

datatype image = Image (pixels: string) (caption: string)

text \<open>A value of a logged field: a statistic, or the list of prediction images.\<close>

datatype logged = Stat stat | Images "image list"

text \<open>The two notices printed.\<close>

datatype notice =
    Better_model_found int string pyfloat
  | Loaded_best_saved_model string

text \<open>
  The calls made to the collaborators, in order: \<^verbatim>\<open>print\<close>, \<^verbatim>\<open>wandb.watch(model, log=...)\<close>,
  \<^verbatim>\<open>wandb.log(dict, commit=...)\<close>, \<^verbatim>\<open>learn.save(file)\<close> on the file opened at a path and
  \<^verbatim>\<open>learn.load(file, purge=...)\<close>.
\<close>

datatype effect =
    Print notice
  | Watch string "string option"
  | Log "string \<Rightarrow> logged option" bool
  | Save string string
  | Load string bool

text \<open>
  The learner as the callback reads it: \<open>model\<close> is the model's parameters (as
  \<^verbatim>\<open>learn.save\<close> serialises them), \<open>valid_ds\<close> is \<^verbatim>\<open>learn.data.valid_ds\<close>,
  \<open>recorder_names\<close> is \<^verbatim>\<open>learn.recorder.names\<close>. \<open>monitor_value\<close> is what the inherited
  \<^verbatim>\<open>get_monitor_value()\<close> returns for a monitor name in the recorder's present
  state (\<open>None\<close> for Python's \<^verbatim>\<open>None\<close>); \<open>predict\<close> is \<^verbatim>\<open>learn.predict\<close>, giving the
  text of \<^verbatim>\<open>pred[0]\<close> and \<^verbatim>\<open>pred[1].shape\<close>. Both belong to fast.ai and are parameters
  here.
\<close>

record learner =
  model :: string
  valid_ds :: "item list"
  recorder_names :: "string list"
  monitor_value :: "string \<Rightarrow> pyfloat option"
  predict :: "string \<Rightarrow> string \<times> nat list"

text \<open>
  The process outside the callback object: \<open>wandb_run\<close> is \<^verbatim>\<open>wandb.run\<close> (\<open>None\<close>, or a
  run with its directory), \<open>watch_called\<close> the class attribute
  \<^verbatim>\<open>WandbCallback.watch_called\<close>, \<open>files\<close> the regular files by path, \<open>trace\<close> the calls
  made so far.
\<close>

record world =
  wandb_run :: "string option"
  watch_called :: bool
  files :: "string \<Rightarrow> string option"
  trace :: "effect list"

subsection \<open>The parent class\<close>

text \<open>
  \<^verbatim>\<open>TrackerCallback\<close> is imported from fast.ai and is not part of the module. The three
  things the module inherits from it are written from the specification.
\<close>

text \<open>The \<^verbatim>\<open>mode\<close> argument: \<^verbatim>\<open>"auto"\<close>, \<^verbatim>\<open>"min"\<close> or \<^verbatim>\<open>"max"\<close>.\<close>

datatype mode = Auto | Min | Max

text \<open>\<^verbatim>\<open>sub in s\<close> on strings, as a recursive search.\<close>

fun contains :: "string \<Rightarrow> string \<Rightarrow> bool" where
  "contains sub [] = (sub = [])"
| "contains sub (c # cs) = (prefix sub (c # cs) \<or> contains sub cs)"

text \<open>
  Modelled from the spec: the comparison-mode resolution of \<^verbatim>\<open>TrackerCallback.__init__\<close>
  (fast.ai, not in the module). "If mode is auto, infer min when the monitored metric
  name contains the substring loss or error, else max; otherwise use the given mode
  directly."
\<close>

definition resolve_mode :: "mode \<Rightarrow> string \<Rightarrow> mode" where
  "resolve_mode m mon =
     (if m = Auto then (if contains ''loss'' mon \<or> contains ''error'' mon then Min else Max)
      else m)"

definition mode_operator :: "mode \<Rightarrow> string \<Rightarrow> cmp_operator" where
  "mode_operator m mon = (if resolve_mode m mon = Min then Less else Greater)"

text \<open>
  Modelled from the spec: \<^verbatim>\<open>TrackerCallback.on_train_begin\<close> (fast.ai, not in the
  module). "Resets best to +infinity (min mode) or -infinity (max mode)."
\<close>

definition initial_best :: "cmp_operator \<Rightarrow> pyfloat" where
  "initial_best opr = (if opr = Less then PosInf else NegInf)"

subsection \<open>random.sample\<close>

text \<open>
  Modelled from the spec: \<^verbatim>\<open>random.sample(range(n), k)\<close> (Python's standard library, not
  in the module). "Draws indices at random without replacement": each draw takes one
  element out of the remaining pool, at the position the random source gives. The random
  source is a parameter, \<open>rnd\<close>; \<^verbatim>\<open>random.sample\<close> raises \<^verbatim>\<open>ValueError\<close> when the count is
  negative or larger than the population.
\<close>

fun draw :: "(nat \<Rightarrow> nat) \<Rightarrow> nat list \<Rightarrow> nat \<Rightarrow> nat list" where
  "draw rnd pool 0 = []"
| "draw rnd pool (Suc k) =
     (if pool = [] then []
      else let j = rnd k mod length pool
           in pool ! j # draw rnd (take j pool @ drop (Suc j) pool) k)"

definition random_sample :: "(nat \<Rightarrow> nat) \<Rightarrow> nat \<Rightarrow> int \<Rightarrow> error + nat list" where
  "random_sample rnd n k =
     (if k < 0 \<or> int n < k
      then Inl (ValueError ''Sample larger than population or is negative'')
      else Inr (draw rnd [0..<n] (nat k)))"

text \<open>
  The choices of a draw of \<open>k\<close> out of \<open>n\<close>, in normal form: the choice for the draw with
  \<open>i\<close> more to follow is a position in the pool of that moment, which has \<open>n - k + i + 1\<close>
  elements, and nothing is chosen beyond the draws made.
\<close>

definition choices :: "nat \<Rightarrow> nat \<Rightarrow> (nat \<Rightarrow> nat) \<Rightarrow> bool" where
  "choices n k rnd = (\<forall>i. (i < k \<longrightarrow> rnd i + k \<le> n + i) \<and> (k \<le> i \<longrightarrow> rnd i = 0))"

subsection \<open>The callback object\<close>

text \<open>
  The attributes of a \<^verbatim>\<open>WandbCallback\<close>. \<open>log_opt\<close> is \<^verbatim>\<open>self.log\<close>; \<open>monitor\<close> and
  \<open>operator\<close> are set by the parent's constructor. \<open>best\<close> is \<open>None\<close> for Python's
  \<^verbatim>\<open>None\<close>.
\<close>

record callback =
  save_model :: bool
  model_path :: string
  log_opt :: "string option"
  data_type :: "string option"
  best :: "pyfloat option"
  validation_data :: "item list option"
  monitor :: string
  operator :: cmp_operator

text \<open>
  \<^verbatim>\<open>Path(dir) / name\<close> as a string, for a name of one component, as pathlib joins POSIX
  paths (standard library): the components of \<open>dir\<close> are what stands between its
  slashes, without the empty ones and without \<^verbatim>\<open>.\<close>; a leading slash is kept as the root,
  and exactly two leading slashes are kept as they are.
\<close>

fun split_path :: "string \<Rightarrow> string \<Rightarrow> string list" where
  "split_path part [] = [part]"
| "split_path part (c # cs) =
     (if c = CHR ''/'' then part # split_path [] cs else split_path (part @ [c]) cs)"

definition path_parts :: "string \<Rightarrow> string list" where
  "path_parts p = filter (\<lambda>c. c \<noteq> [] \<and> c \<noteq> ''.'') (split_path [] p)"

definition path_root :: "string \<Rightarrow> string" where
  "path_root p =
     (if take 2 p = ''//'' \<and> take 3 p \<noteq> ''///'' then ''//''
      else if take 1 p = ''/'' then ''/'' else [])"

fun join_parts :: "string list \<Rightarrow> string" where
  "join_parts [] = []"
| "join_parts [p] = p"
| "join_parts (p # q # ps) = p @ ''/'' @ join_parts (q # ps)"

definition path_join :: "string \<Rightarrow> string \<Rightarrow> string" where
  "path_join dir name = path_root dir @ join_parts (path_parts dir @ [name])"

text \<open>The constructor's keyword arguments, and their defaults.\<close>

record args =
  arg_log :: "string option"
  arg_save_model :: bool
  arg_monitor :: string
  arg_mode :: mode
  arg_data_type :: "string option"
  arg_validation_data :: "item list option"
  arg_predictions :: int

definition default_args :: args where
  "default_args =
     \<lparr>arg_log = None, arg_save_model = False, arg_monitor = ''val_loss'', arg_mode = Auto,
      arg_data_type = Some ''images'', arg_validation_data = None, arg_predictions = 32\<rparr>"

text \<open>
  \<^verbatim>\<open>WandbCallback.__init__\<close>. It raises \<^verbatim>\<open>ValueError\<close> when \<^verbatim>\<open>wandb.run is None\<close>;
  otherwise it fills the attributes, with \<^verbatim>\<open>self.best = None\<close>, and, when \<^verbatim>\<open>data_type\<close>
  is truthy and \<^verbatim>\<open>validation_data\<close> is not, replaces \<^verbatim>\<open>validation_data\<close> by the items at
  \<^verbatim>\<open>random.sample(range(len(valid_ds)), min(predictions, len(valid_ds)))\<close>.
\<close>

definition sample_count :: "learner \<Rightarrow> args \<Rightarrow> int" where
  "sample_count lrn a = min (arg_predictions a) (int (length (valid_ds lrn)))"

definition WandbCallback_init ::
  "world \<Rightarrow> (nat \<Rightarrow> nat) \<Rightarrow> learner \<Rightarrow> args \<Rightarrow> error + callback" where
  "WandbCallback_init w rnd lrn a =
     (case wandb_run w of
        None \<Rightarrow> Inl (ValueError ''You must call wandb.init() before WandbCallback()'')
      | Some dir \<Rightarrow>
          let self = \<lparr>save_model = arg_save_model a,
                      model_path = path_join dir ''bestmodel.pth'',
                      log_opt = arg_log a,
                      data_type = arg_data_type a,
                      best = None,
                      validation_data = arg_validation_data a,
                      monitor = arg_monitor a,
                      operator = mode_operator (arg_mode a) (arg_monitor a)\<rparr>
          in if truthy (data_type self) \<and> \<not> truthy (validation_data self)
             then (case random_sample rnd (length (valid_ds lrn)) (sample_count lrn a) of
                     Inl e \<Rightarrow> Inl e
                   | Inr indices \<Rightarrow>
                       Inr (self\<lparr>validation_data := Some (map (\<lambda>i. valid_ds lrn ! i) indices)\<rparr>))
             else Inr self)"

text \<open>
  \<^verbatim>\<open>on_train_begin\<close>: the parent sets \<open>best\<close>; then \<^verbatim>\<open>wandb.watch\<close> is called unless
  \<^verbatim>\<open>WandbCallback.watch_called\<close> is already set, and the attribute is set.
\<close>

definition on_train_begin :: "callback \<Rightarrow> learner \<Rightarrow> world \<Rightarrow> world \<times> callback" where
  "on_train_begin self lrn w =
     (let self' = self\<lparr>best := Some (initial_best (operator self))\<rparr>
      in if \<not> watch_called w
         then (w\<lparr>watch_called := True, trace := trace w @ [Watch (model lrn) (log_opt self)]\<rparr>,
               self')
         else (w, self'))"

text \<open>
  \<^verbatim>\<open>on_epoch_end\<close>, in its three parts. The first is the best-model policy.
  \<^verbatim>\<open>self.operator(current, self.best)\<close> with \<^verbatim>\<open>self.best\<close> still \<^verbatim>\<open>None\<close> (no
  \<^verbatim>\<open>on_train_begin\<close> yet) is a \<^verbatim>\<open>TypeError\<close> of the comparison.
\<close>

definition save_best ::
  "callback \<Rightarrow> learner \<Rightarrow> world \<Rightarrow> int \<Rightarrow> error + world \<times> callback" where
  "save_best self lrn w epoch =
     (if save_model self then
        (case monitor_value lrn (monitor self) of
           None \<Rightarrow> Inr (w, self)
         | Some current \<Rightarrow>
             (case best self of
                None \<Rightarrow> Inl TypeError
              | Some b \<Rightarrow>
                  if apply_operator (operator self) current b
                  then Inr (w\<lparr>files := (files w)(model_path self \<mapsto> model lrn),
                              trace := trace w @
                                [Print (Better_model_found epoch (monitor self) current),
                                 Save (model_path self) (model lrn)]\<rparr>,
                            self\<lparr>best := Some current\<rparr>)
                  else Inr (w, self)))
      else Inr (w, self))"

text \<open>The loop over the sample set; a prediction is kept when its shape is empty.\<close>

definition caption_of :: "string \<Rightarrow> string \<Rightarrow> string" where
  "caption_of y p = ''Ground Truth: '' @ y @ [CHR 0x0A] @ ''Prediction: '' @ p"

fun pred_log_of :: "learner \<Rightarrow> item list \<Rightarrow> image list \<Rightarrow> image list" where
  "pred_log_of lrn [] pred_log = pred_log"
| "pred_log_of lrn ((x, y) # rest) pred_log =
     (let pred = predict lrn x
      in if snd pred = []
         then pred_log_of lrn rest (pred_log @ [Image x (caption_of y (fst pred))])
         else pred_log_of lrn rest pred_log)"

fun items_of :: "item list option \<Rightarrow> item list" where
  "items_of None = []"
| "items_of (Some xs) = xs"

definition log_predictions :: "callback \<Rightarrow> learner \<Rightarrow> world \<Rightarrow> world" where
  "log_predictions self lrn w =
     (if truthy (validation_data self)
      then w\<lparr>trace := trace w @
                [Log [''Prediction Samples'' \<mapsto>
                        Images (pred_log_of lrn (items_of (validation_data self)) [])] False]\<rparr>
      else w)"

text \<open>
  The metrics: a dict comprehension over \<^verbatim>\<open>list(zip(names, [epoch, smooth_loss] +
  last_metrics))[1:]\<close>; a later pair with the same name overwrites an earlier one.
\<close>

definition dict_of :: "('k \<times> 'v) list \<Rightarrow> ('k \<Rightarrow> 'v option)" where
  "dict_of ps = fold (\<lambda>(k, v) d. d(k \<mapsto> v)) ps Map.empty"

definition logs_of :: "learner \<Rightarrow> int \<Rightarrow> pyfloat \<Rightarrow> pyfloat list \<Rightarrow> (string \<Rightarrow> stat option)" where
  "logs_of lrn epoch smooth_loss last_metrics =
     dict_of (drop 1 (zip (recorder_names lrn)
                          ([IntS epoch, FloatS smooth_loss] @ map FloatS last_metrics)))"

definition log_metrics :: "learner \<Rightarrow> world \<Rightarrow> int \<Rightarrow> pyfloat \<Rightarrow> pyfloat list \<Rightarrow> world" where
  "log_metrics lrn w epoch smooth_loss last_metrics =
     w\<lparr>trace := trace w @
         [Log (map_option Stat \<circ> logs_of lrn epoch smooth_loss last_metrics) True]\<rparr>"

definition on_epoch_end ::
  "callback \<Rightarrow> learner \<Rightarrow> world \<Rightarrow> int \<Rightarrow> pyfloat \<Rightarrow> pyfloat list \<Rightarrow> error + world \<times> callback" where
  "on_epoch_end self lrn w epoch smooth_loss last_metrics =
     (case save_best self lrn w epoch of
        Inl e \<Rightarrow> Inl e
      | Inr (w1, self1) \<Rightarrow>
          Inr (log_metrics lrn (log_predictions self1 lrn w1) epoch smooth_loss last_metrics,
               self1))"

text \<open>
  \<^verbatim>\<open>on_train_end\<close>: when checkpointing is on and the file is there, the learner loads
  it with \<^verbatim>\<open>purge=False\<close> and the notice is printed.
\<close>

definition on_train_end :: "callback \<Rightarrow> learner \<Rightarrow> world \<Rightarrow> world \<times> learner" where
  "on_train_end self lrn w =
     (if save_model self then
        (case files w (model_path self) of
           Some contents \<Rightarrow>
             (w\<lparr>trace := trace w @
                  [Load (model_path self) False,
                   Print (Loaded_best_saved_model (model_path self))]\<rparr>,
              lrn\<lparr>model := contents\<rparr>)
         | None \<Rightarrow> (w, lrn))
      else (w, lrn))"

subsection \<open>A process with several observers\<close>

text \<open>
  The training loop's calls, for any number of callback objects in one process: a
  construction adds an object; the lifecycle calls name the object by its position.
  \<open>Fit\<close> stands for the training between two calls, which changes the learner a
  callback is attached to.
\<close>

record system =
  world_of :: world
  observers :: "(callback \<times> learner) list"

datatype call =
    New "nat \<Rightarrow> nat" learner args
  | Train_begin nat
  | Epoch_end nat int pyfloat "pyfloat list"
  | Train_end nat
  | Fit nat learner

fun step :: "system \<Rightarrow> call \<Rightarrow> error + system" where
  "step s (New rnd lrn a) =
     (case WandbCallback_init (world_of s) rnd lrn a of
        Inl e \<Rightarrow> Inl e
      | Inr self \<Rightarrow> Inr (s\<lparr>observers := observers s @ [(self, lrn)]\<rparr>))"
| "step s (Train_begin i) =
     (if i < length (observers s)
      then (case observers s ! i of
              (self, lrn) \<Rightarrow>
                (case on_train_begin self lrn (world_of s) of
                   (w', self') \<Rightarrow>
                     Inr \<lparr>world_of = w', observers = (observers s)[i := (self', lrn)]\<rparr>))
      else Inr s)"
| "step s (Epoch_end i epoch smooth_loss last_metrics) =
     (if i < length (observers s)
      then (case observers s ! i of
              (self, lrn) \<Rightarrow>
                (case on_epoch_end self lrn (world_of s) epoch smooth_loss last_metrics of
                   Inl e \<Rightarrow> Inl e
                 | Inr (w', self') \<Rightarrow>
                     Inr \<lparr>world_of = w', observers = (observers s)[i := (self', lrn)]\<rparr>))
      else Inr s)"
| "step s (Train_end i) =
     (if i < length (observers s)
      then (case observers s ! i of
              (self, lrn) \<Rightarrow>
                (case on_train_end self lrn (world_of s) of
                   (w', lrn') \<Rightarrow>
                     Inr \<lparr>world_of = w', observers = (observers s)[i := (self, lrn')]\<rparr>))
      else Inr s)"
| "step s (Fit i lrn') =
     (if i < length (observers s)
      then Inr (s\<lparr>observers := (observers s)[i := (fst (observers s ! i), lrn')]\<rparr>)
      else Inr s)"

text \<open>
  A sequence of calls. A call that raises changes nothing (each method raises before
  its first effect), and the sequence goes on, as under a caller that catches the
  exception; a run that stops at the exception is a run of the calls before it.
\<close>

fun run :: "system \<Rightarrow> call list \<Rightarrow> system" where
  "run s [] = s"
| "run s (c # cs) = (case step s c of Inl e \<Rightarrow> run s cs | Inr s' \<Rightarrow> run s' cs)"

text \<open>A process in which nothing has happened yet.\<close>

definition fresh :: "string option \<Rightarrow> (string \<Rightarrow> string option) \<Rightarrow> system" where
  "fresh r fs =
     \<lparr>world_of = \<lparr>wandb_run = r, watch_called = False, files = fs, trace = []\<rparr>,
      observers = []\<rparr>"

subsection \<open>Observations on a trace\<close>

fun is_save :: "effect \<Rightarrow> bool" where
  "is_save (Save p c) = True"
| "is_save e = False"

fun is_watch :: "effect \<Rightarrow> bool" where
  "is_watch (Watch m l) = True"
| "is_watch e = False"

fun is_purging_load :: "effect \<Rightarrow> bool" where
  "is_purging_load (Load p purge) = purge"
| "is_purging_load e = False"

text \<open>
  The image sequence a call of \<^verbatim>\<open>wandb.log\<close> carries in the field "Prediction Samples",
  if it carries one.
\<close>

fun prediction_samples :: "effect \<Rightarrow> image list option" where
  "prediction_samples (Log d commit) =
     (case d ''Prediction Samples'' of Some (Images imgs) \<Rightarrow> Some imgs | _ \<Rightarrow> None)"
| "prediction_samples e = None"

text \<open>The record of a call of \<^verbatim>\<open>wandb.log\<close> that commits the step.\<close>

fun committed_record :: "effect \<Rightarrow> (string \<Rightarrow> logged option) option" where
  "committed_record (Log d commit) = (if commit then Some d else None)"
| "committed_record e = None"

definition watch_requests :: "effect list \<Rightarrow> nat" where
  "watch_requests tr = length (filter is_watch tr)"

text \<open>The number of requests agrees with the flag.\<close>

definition watch_inv :: "world \<Rightarrow> bool" where
  "watch_inv w = (watch_requests (trace w) = (if watch_called w then 1 else 0))"

text \<open>What a call added to the trace.\<close>

definition new_effects :: "world \<Rightarrow> world \<Rightarrow> effect list" where
  "new_effects w w' = drop (length (trace w)) (trace w')"

text \<open>
  The specification's condition for a checkpoint: the monitored value is present and
  strictly better than \<open>best\<close>, strictly less in min mode and strictly greater in max
  mode.
\<close>

definition strictly_better :: "callback \<Rightarrow> learner \<Rightarrow> bool" where
  "strictly_better self lrn =
     (case monitor_value lrn (monitor self) of
        None \<Rightarrow> False
      | Some current \<Rightarrow>
          (case best self of
             None \<Rightarrow> False
           | Some b \<Rightarrow>
               (case operator self of
                  Less \<Rightarrow> float_less current b
                | Greater \<Rightarrow> float_less b current)))"

subsection \<open>Example values\<close>

definition ex_learner :: learner where
  "ex_learner =
     \<lparr>model = ''weights-1'',
      valid_ds = [(''img0'', ''cat''), (''img1'', ''dog''), (''img2'', ''cat'')],
      recorder_names = [''epoch'', ''train_loss'', ''valid_loss'', ''accuracy''],
      monitor_value = [''valid_loss'' \<mapsto> Fin 5],
      predict = (\<lambda>x. (''cat'', []))\<rparr>"

definition ex_rnd :: "nat \<Rightarrow> nat" where
  "ex_rnd k = 2 * k + 1"

definition ex_world :: world where
  "ex_world = \<lparr>wandb_run = Some ''run'', watch_called = False, files = Map.empty, trace = []\<rparr>"

definition ex_callback :: callback where
  "ex_callback =
     \<lparr>save_model = True, model_path = ''run/bestmodel.pth'', log_opt = None,
      data_type = None, best = Some PosInf, validation_data = None,
      monitor = ''valid_loss'', operator = Less\<rparr>"

definition ex_args :: args where
  "ex_args =
     default_args\<lparr>arg_data_type := None, arg_save_model := True, arg_monitor := ''valid_loss''\<rparr>"

definition ex_first :: "call list" where
  "ex_first =
     [New ex_rnd ex_learner ex_args, Train_begin 0,
      Epoch_end 0 1 (Fin 6) [Fin 5, Fin (1/2)], Train_end 0]"

definition ex_second :: "call list" where
  "ex_second =
     [New ex_rnd ex_learner ex_args, Train_begin 1,
      Epoch_end 1 1 (Fin 6) [Fin 5, Fin (1/2)], Train_end 1]"

text \<open>
  A training of four epochs with validation losses 5, 3, 4, 2; the model after epoch
  \<open>e\<close> is \<open>we\<close>.
\<close>

definition ex_epoch :: "real \<Rightarrow> string \<Rightarrow> nat \<Rightarrow> call list" where
  "ex_epoch v m e =
     [Fit 0 (ex_learner\<lparr>monitor_value := [''valid_loss'' \<mapsto> Fin v], model := m\<rparr>),
      Epoch_end 0 (int e) (Fin 6) [Fin v]]"

definition ex_training :: "mode \<Rightarrow> call list" where
  "ex_training m =
     [New ex_rnd ex_learner (ex_args\<lparr>arg_mode := m\<rparr>), Train_begin 0]
     @ ex_epoch 5 ''w1'' 1 @ ex_epoch 3 ''w2'' 2 @ ex_epoch 4 ''w3'' 3 @ ex_epoch 2 ''w4'' 4
     @ [Train_end 0]"

definition ex_timed :: learner where
  "ex_timed =
     ex_learner\<lparr>recorder_names :=
                  [''epoch'', ''train_loss'', ''valid_loss'', ''accuracy'', ''time'']\<rparr>"

text \<open>What one \<^verbatim>\<open>on_epoch_end\<close> commits, and the prediction samples it emits.\<close>

definition committed_records ::
  "callback \<Rightarrow> learner \<Rightarrow> world \<Rightarrow> int \<Rightarrow> pyfloat \<Rightarrow> pyfloat list
     \<Rightarrow> (string \<Rightarrow> logged option) list" where
  "committed_records self lrn w epoch smooth_loss last_metrics =
     (case on_epoch_end self lrn w epoch smooth_loss last_metrics of
        Inl e \<Rightarrow> []
      | Inr (w', self') \<Rightarrow> List.map_filter committed_record (new_effects w w'))"

definition emitted_prediction_samples ::
  "callback \<Rightarrow> learner \<Rightarrow> world \<Rightarrow> int \<Rightarrow> pyfloat \<Rightarrow> pyfloat list \<Rightarrow> image list list" where
  "emitted_prediction_samples self lrn w epoch smooth_loss last_metrics =
     (case on_epoch_end self lrn w epoch smooth_loss last_metrics of
        Inl e \<Rightarrow> []
      | Inr (w', self') \<Rightarrow> List.map_filter prediction_samples (new_effects w w'))"

definition ex_saved :: world where
  "ex_saved = ex_world\<lparr>files := [''run/bestmodel.pth'' \<mapsto> ''weights-0'']\<rparr>"

definition ex_silent :: callback where
  "ex_silent =
     \<lparr>save_model = False, model_path = ''run/bestmodel.pth'', log_opt = None,
      data_type = None, best = None, validation_data = Some [],
      monitor = ''val_loss'', operator = Less\<rparr>"

section \<open>Properties\<close>

text \<open>The definitions by which an example is evaluated.\<close>

lemmas model_simps =
  WandbCallback_init_def on_train_begin_def on_epoch_end_def save_best_def
  log_metrics_def log_predictions_def on_train_end_def
  mode_operator_def resolve_mode_def initial_best_def Let_def
  path_join_def path_parts_def path_root_def
  fresh_def ex_args_def default_args_def ex_learner_def

text \<open>The checkpoint's path for some run directories.\<close>

lemma path_join_examples:
  "path_join ''run'' ''bestmodel.pth'' = ''run/bestmodel.pth''"
  "path_join ''run/'' ''bestmodel.pth'' = ''run/bestmodel.pth''"
  "path_join [] ''bestmodel.pth'' = ''bestmodel.pth''"
  "path_join ''/tmp//wandb/./run-1/'' ''bestmodel.pth'' = ''/tmp/wandb/run-1/bestmodel.pth''"
  by (simp_all add: path_join_def path_parts_def path_root_def)

subsection \<open>Comparisons\<close>

lemma float_less_irrefl: "\<not> float_less a a"
  by (cases a) simp_all

lemma apply_operator_cases:
  "apply_operator opr a b = (case opr of Less \<Rightarrow> float_less a b | Greater \<Rightarrow> float_less b a)"
  by (cases opr) simp_all

lemma new_effects_append: "trace w' = trace w @ es \<Longrightarrow> new_effects w w' = es"
  by (simp add: new_effects_def)

subsection \<open>The best-model policy\<close>

text \<open>
  The policy in one equation: a \<^verbatim>\<open>TypeError\<close> when a value is there to compare and
  \<open>best\<close> is not; the checkpoint when the value is strictly better; nothing otherwise.
\<close>

lemma save_best_shape:
  "save_best self lrn w epoch =
     (if save_model self \<and> monitor_value lrn (monitor self) \<noteq> None \<and> best self = None
      then Inl TypeError
      else if save_model self \<and> strictly_better self lrn
      then Inr (w\<lparr>files := (files w)(model_path self \<mapsto> model lrn),
                  trace := trace w @
                    [Print (Better_model_found epoch (monitor self)
                              (the (monitor_value lrn (monitor self)))),
                     Save (model_path self) (model lrn)]\<rparr>,
                self\<lparr>best := monitor_value lrn (monitor self)\<rparr>)
      else Inr (w, self))"
  by (auto simp: save_best_def strictly_better_def apply_operator_cases
           split: option.splits cmp_operator.splits)

text \<open>The only exception of \<^verbatim>\<open>on_epoch_end\<close>.\<close>

lemma on_epoch_end_error:
  "on_epoch_end self lrn w epoch smooth_loss last_metrics = Inl e \<Longrightarrow>
   e = TypeError \<and> save_model self \<and> best self = None"
  by (auto simp: on_epoch_end_def save_best_def split: sum.splits option.splits if_splits)

text \<open>
  C1. With checkpointing enabled, an \<^verbatim>\<open>on_epoch_end\<close> writes the checkpoint to
  \<open>model_path\<close> and updates \<open>best\<close> if and only if the monitored value is present and
  strictly better than \<open>best\<close> (strictly less in min mode, strictly greater in max
  mode). The write is the only one of the call, and \<open>best\<close> becomes the monitored
  value; otherwise no file changes and \<open>best\<close> stays. When the monitored value is
  absent the call returns normally, with nothing saved. The only exception of the call
  is the comparison against a \<open>best\<close> that no \<^verbatim>\<open>on_train_begin\<close> has set, and nothing
  is saved then either.
\<close>

theorem checkpoint_iff_strictly_better:
  assumes "save_model self"
  shows "(case on_epoch_end self lrn w epoch smooth_loss last_metrics of
            Inl e \<Rightarrow>
              e = TypeError \<and> \<not> strictly_better self lrn
              \<and> monitor_value lrn (monitor self) \<noteq> None \<and> best self = None
          | Inr (w', self') \<Rightarrow>
              (if strictly_better self lrn
               then files w' = (files w)(model_path self \<mapsto> model lrn)
                  \<and> filter is_save (new_effects w w') = [Save (model_path self) (model lrn)]
                  \<and> best self' = monitor_value lrn (monitor self)
                  \<and> best self' \<noteq> best self
               else files w' = files w
                  \<and> filter is_save (new_effects w w') = []
                  \<and> best self' = best self))
         \<and> (monitor_value lrn (monitor self) = None \<longrightarrow>
              (\<exists>w'. on_epoch_end self lrn w epoch smooth_loss last_metrics = Inr (w', self)
                    \<and> files w' = files w \<and> filter is_save (new_effects w w') = []))"
proof -
  have "on_epoch_end self lrn w epoch smooth_loss last_metrics =
          (case save_best self lrn w epoch of
             Inl e \<Rightarrow> Inl e
           | Inr (w1, self1) \<Rightarrow>
               Inr (log_metrics lrn (log_predictions self1 lrn w1) epoch smooth_loss
                      last_metrics, self1))"
    by (simp add: on_epoch_end_def)
  then show ?thesis
    using assms
    by (auto simp: save_best_shape log_metrics_def log_predictions_def new_effects_def
                   strictly_better_def float_less_irrefl
             split: option.splits cmp_operator.splits)
qed

text \<open>
  An epoch whose validation loss 5 is compared with \<open>best = +infinity\<close> in min mode:
  the checkpoint is written and \<open>best\<close> becomes 5.
\<close>

theorem checkpoint_iff_strictly_better_witness:
  "save_model ex_callback
   \<and> strictly_better ex_callback ex_learner
   \<and> (case on_epoch_end ex_callback ex_learner ex_world 1 (Fin 6) [Fin 5, Fin (1/2)] of
         Inl e \<Rightarrow> False
       | Inr (w', self') \<Rightarrow>
           files w' ''run/bestmodel.pth'' = Some ''weights-1'' \<and> best self' = Some (Fin 5)
           \<and> filter is_save (new_effects ex_world w') = [Save ''run/bestmodel.pth'' ''weights-1''])"
  using checkpoint_iff_strictly_better
          [of ex_callback ex_learner ex_world 1 "Fin 6" "[Fin 5, Fin (1/2)]"]
  by (auto simp: ex_callback_def ex_learner_def strictly_better_def split: sum.splits)

text \<open>
  C8. With checkpointing disabled, an \<^verbatim>\<open>on_epoch_end\<close> returns normally, leaves every
  file and the whole callback object, \<open>best\<close> included, as they were, and makes no call
  of \<^verbatim>\<open>learn.save\<close>.
\<close>

theorem no_checkpoint_when_disabled:
  assumes "\<not> save_model self"
  shows "\<exists>w'. on_epoch_end self lrn w epoch smooth_loss last_metrics = Inr (w', self)
              \<and> files w' = files w
              \<and> filter is_save (new_effects w w') = []"
  using assms
  by (simp add: on_epoch_end_def save_best_def log_metrics_def log_predictions_def
                new_effects_def)

text \<open>The same epoch as above with \<open>save_model\<close> off: no checkpoint file appears.\<close>

theorem no_checkpoint_when_disabled_witness:
  "\<not> save_model (ex_callback\<lparr>save_model := False\<rparr>)
   \<and> (\<exists>w'. on_epoch_end (ex_callback\<lparr>save_model := False\<rparr>) ex_learner ex_world 1 (Fin 6)
                [Fin 5, Fin (1/2)] = Inr (w', ex_callback\<lparr>save_model := False\<rparr>)
            \<and> files w' ''run/bestmodel.pth'' = None
            \<and> filter is_save (new_effects ex_world w') = [])"
  using no_checkpoint_when_disabled
          [of "ex_callback\<lparr>save_model := False\<rparr>" ex_learner ex_world 1 "Fin 6"
              "[Fin 5, Fin (1/2)]"]
  by (auto simp: ex_callback_def ex_world_def)

text \<open>
  The specification's example: with validation losses 5, 3, 4, 2 the checkpoints in min
  mode are those of epochs 1, 2 and 4, and the model restored at the end is that of
  epoch 4; in max mode only epoch 1 is saved, and restored.
\<close>

lemma min_mode_example:
  "filter is_save (trace (world_of (run (fresh (Some ''run'') Map.empty) (ex_training Min)))) =
     [Save ''run/bestmodel.pth'' ''w1'', Save ''run/bestmodel.pth'' ''w2'',
      Save ''run/bestmodel.pth'' ''w4'']
   \<and> map (model \<circ> snd) (observers (run (fresh (Some ''run'') Map.empty) (ex_training Min))) =
       [''w4'']"
  by (simp add: ex_training_def ex_epoch_def model_simps)

lemma max_mode_example:
  "filter is_save (trace (world_of (run (fresh (Some ''run'') Map.empty) (ex_training Max)))) =
     [Save ''run/bestmodel.pth'' ''w1'']
   \<and> map (model \<circ> snd) (observers (run (fresh (Some ''run'') Map.empty) (ex_training Max))) =
       [''w1'']"
  by (simp add: ex_training_def ex_epoch_def model_simps)

subsection \<open>The watch request\<close>

lemma watch_requests_append:
  "watch_requests (xs @ ys) = watch_requests xs + watch_requests ys"
  by (simp add: watch_requests_def)

lemma on_train_begin_world:
  "fst (on_train_begin self lrn w) =
     (if watch_called w then w
      else w\<lparr>watch_called := True, trace := trace w @ [Watch (model lrn) (log_opt self)]\<rparr>)"
  by (simp add: on_train_begin_def Let_def)

lemma on_epoch_end_watch:
  assumes "on_epoch_end self lrn w epoch sl ms = Inr (w', self')"
  shows "watch_called w' = watch_called w \<and> filter is_watch (trace w') = filter is_watch (trace w)"
  using assms
  by (auto simp: on_epoch_end_def save_best_def log_metrics_def log_predictions_def
           split: sum.splits option.splits if_splits)

lemma on_train_end_watch:
  "watch_called (fst (on_train_end self lrn w)) = watch_called w \<and>
   filter is_watch (trace (fst (on_train_end self lrn w))) = filter is_watch (trace w)"
  by (simp add: on_train_end_def split: option.splits)

lemma step_watch_set:
  assumes "step s c = Inr s'" and "watch_called (world_of s)"
  shows "watch_called (world_of s') \<and>
         filter is_watch (trace (world_of s')) = filter is_watch (trace (world_of s))"
proof (cases c)
  case (New rnd lrn a)
  with assms show ?thesis by (auto split: sum.splits)
next
  case (Train_begin i)
  with assms show ?thesis
    by (auto simp: on_train_begin_def Let_def split: if_splits prod.splits)
next
  case (Epoch_end i epoch sl ms)
  with assms show ?thesis
    by (auto split: if_splits prod.splits sum.splits dest: on_epoch_end_watch)
next
  case (Train_end i)
  with assms on_train_end_watch show ?thesis
    by (auto split: if_splits prod.splits) (metis fst_conv)+
next
  case (Fit i lrn')
  with assms show ?thesis by (auto split: if_splits)
qed

lemma step_watch_inv:
  assumes "step s c = Inr s'" and "watch_inv (world_of s)"
  shows "watch_inv (world_of s')"
proof (cases c)
  case (New rnd lrn a)
  with assms show ?thesis by (auto split: sum.splits)
next
  case (Train_begin i)
  with assms show ?thesis
    by (auto simp: on_train_begin_def Let_def watch_inv_def watch_requests_def
             split: if_splits prod.splits)
next
  case (Epoch_end i epoch sl ms)
  with assms show ?thesis
    by (auto simp: watch_inv_def watch_requests_def
             split: if_splits prod.splits sum.splits dest: on_epoch_end_watch)
next
  case (Train_end i)
  with assms on_train_end_watch show ?thesis
    by (auto simp: watch_inv_def watch_requests_def split: if_splits prod.splits)
       (metis fst_conv)+
next
  case (Fit i lrn')
  with assms show ?thesis by (auto split: if_splits)
qed

lemma run_watch_inv: "watch_inv (world_of s) \<Longrightarrow> watch_inv (world_of (run s cs))"
proof (induction cs arbitrary: s)
  case Nil
  then show ?case by simp
next
  case (Cons c cs)
  show ?case
  proof (cases "step s c")
    case (Inl e)
    with Cons show ?thesis by simp
  next
    case (Inr s')
    with Cons step_watch_inv show ?thesis by simp
  qed
qed

lemma run_watch_set:
  "watch_called (world_of s) \<Longrightarrow>
   watch_called (world_of (run s cs)) \<and>
   filter is_watch (trace (world_of (run s cs))) = filter is_watch (trace (world_of s))"
proof (induction cs arbitrary: s)
  case Nil
  then show ?case by simp
next
  case (Cons c cs)
  show ?case
  proof (cases "step s c")
    case (Inl e)
    with Cons show ?thesis by simp
  next
    case (Inr s')
    with Cons.prems step_watch_set have "watch_called (world_of s')"
      and "filter is_watch (trace (world_of s')) = filter is_watch (trace (world_of s))"
      by blast+
    with Cons.IH [of s'] Inr show ?thesis by simp
  qed
qed

text \<open>
  C5. In a process that starts with \<^verbatim>\<open>watch_called\<close> unset, whatever constructions and
  lifecycle calls are made, on whatever observers, \<^verbatim>\<open>wandb.watch\<close> is called at most once:
  the number of calls is 1 when the flag is set and 0 when it is not. An
  \<^verbatim>\<open>on_train_begin\<close> that finds the flag unset sets it and makes the call, with the
  learner's model and the observer's \<open>log\<close> option. From a state in which the flag is
  set, no sequence of calls, on observers old or new, makes another, and the flag stays
  set.
\<close>

theorem watch_requested_at_most_once:
  "watch_requests (trace (world_of (run (fresh r fs) cs))) \<le> 1
   \<and> watch_requests (trace (world_of (run (fresh r fs) cs))) =
       (if watch_called (world_of (run (fresh r fs) cs)) then 1 else 0)
   \<and> (\<not> watch_called w \<longrightarrow>
        fst (on_train_begin self lrn w) =
          w\<lparr>watch_called := True, trace := trace w @ [Watch (model lrn) (log_opt self)]\<rparr>)
   \<and> (watch_called (world_of s) \<longrightarrow>
        watch_called (world_of (run s cs')) \<and>
        filter is_watch (trace (world_of (run s cs'))) = filter is_watch (trace (world_of s)))"
proof -
  have "watch_inv (world_of (fresh r fs))"
    by (simp add: watch_inv_def fresh_def watch_requests_def)
  then have "watch_inv (world_of (run (fresh r fs) cs))"
    by (rule run_watch_inv)
  then show ?thesis
    using run_watch_set [of s cs'] by (simp add: watch_inv_def on_train_begin_world)
qed

text \<open>
  Two observers constructed and run one after the other: the first
  \<^verbatim>\<open>on_train_begin\<close> makes the request, the second observer makes none.
\<close>

theorem watch_requested_at_most_once_witness:
  "\<not> watch_called ex_world
   \<and> fst (on_train_begin ex_callback ex_learner ex_world) =
       ex_world\<lparr>watch_called := True, trace := [Watch ''weights-1'' None]\<rparr>
   \<and> watch_called (world_of (run (fresh (Some ''run'') Map.empty) ex_first))
   \<and> filter is_watch
         (trace (world_of (run (run (fresh (Some ''run'') Map.empty) ex_first) ex_second))) =
       [Watch ''weights-1'' None]
   \<and> watch_requests (trace (world_of (run (fresh (Some ''run'') Map.empty)
                                          (ex_first @ ex_second)))) = 1"
  using watch_requested_at_most_once
          [of "Some ''run''" Map.empty "ex_first @ ex_second" ex_world ex_callback ex_learner
              "run (fresh (Some ''run'') Map.empty) ex_first" ex_second]
  by (simp add: model_simps ex_first_def ex_second_def ex_world_def ex_callback_def
                watch_requests_def)

subsection \<open>The sample set\<close>

lemma remove_at_set: "set (take j pool @ drop (Suc j) pool) \<subseteq> set pool"
  by (auto dest: in_set_takeD in_set_dropD)

lemma remove_at_distinct:
  assumes "distinct pool"
  shows "distinct (take j pool @ drop (Suc j) pool)"
proof -
  have "distinct (take j pool @ drop j pool)" using assms by simp
  then show ?thesis
    by (auto simp: set_take_disj_set_drop_if_distinct assms dest: in_set_dropD
             simp del: append_take_drop_id)
qed

lemma remove_at_notin:
  assumes "distinct pool" and "j < length pool"
  shows "pool ! j \<notin> set (take j pool @ drop (Suc j) pool)"
proof -
  have "pool = take j pool @ pool ! j # drop (Suc j) pool"
    using assms(2) by (simp add: id_take_nth_drop)
  then have "distinct (take j pool @ pool ! j # drop (Suc j) pool)"
    using assms(1) by simp
  then show ?thesis by auto
qed

lemma draw_length: "length (draw rnd pool k) = min k (length pool)"
proof (induction k arbitrary: pool)
  case 0
  then show ?case by simp
next
  case (Suc k)
  show ?case
  proof (cases pool)
    case Nil
    then show ?thesis by simp
  next
    case (Cons p ps)
    let ?j = "rnd k mod length pool"
    let ?rest = "take ?j pool @ drop (Suc ?j) pool"
    have j: "?j < length pool" using Cons by simp
    then have "length ?rest = length ps" using Cons by simp
    then have "length (draw rnd ?rest k) = min k (length ps)"
      using Suc.IH [of ?rest] by simp
    moreover have "draw rnd pool (Suc k) = pool ! ?j # draw rnd ?rest k"
      using Cons by (simp add: Let_def)
    ultimately show ?thesis using Cons by simp
  qed
qed

lemma draw_subset: "set (draw rnd pool k) \<subseteq> set pool"
proof (induction k arbitrary: pool)
  case 0
  then show ?case by simp
next
  case (Suc k)
  show ?case
  proof (cases "pool = []")
    case True
    then show ?thesis by simp
  next
    case False
    let ?j = "rnd k mod length pool"
    let ?rest = "take ?j pool @ drop (Suc ?j) pool"
    have j: "?j < length pool" using False by simp
    have eq: "draw rnd pool (Suc k) = pool ! ?j # draw rnd ?rest k"
      using False by (simp add: Let_def)
    have "set (draw rnd ?rest k) \<subseteq> set ?rest" by (rule Suc.IH)
    also have "\<dots> \<subseteq> set pool" by (rule remove_at_set)
    finally have "set (draw rnd ?rest k) \<subseteq> set pool" .
    moreover have "pool ! ?j \<in> set pool" using j by (rule nth_mem)
    ultimately show ?thesis unfolding eq by simp
  qed
qed

lemma draw_distinct: "distinct pool \<Longrightarrow> distinct (draw rnd pool k)"
proof (induction k arbitrary: pool)
  case 0
  then show ?case by simp
next
  case (Suc k)
  show ?case
  proof (cases "pool = []")
    case True
    then show ?thesis by simp
  next
    case False
    let ?j = "rnd k mod length pool"
    let ?rest = "take ?j pool @ drop (Suc ?j) pool"
    have j: "?j < length pool" using False by simp
    have eq: "draw rnd pool (Suc k) = pool ! ?j # draw rnd ?rest k"
      using False by (simp add: Let_def)
    have "pool ! ?j \<notin> set ?rest" using Suc.prems j by (rule remove_at_notin)
    moreover have "set (draw rnd ?rest k) \<subseteq> set ?rest" by (rule draw_subset)
    ultimately have "pool ! ?j \<notin> set (draw rnd ?rest k)" by blast
    moreover have "distinct ?rest" using Suc.prems by (rule remove_at_distinct)
    then have "distinct (draw rnd ?rest k)" by (rule Suc.IH)
    ultimately show ?thesis unfolding eq by simp
  qed
qed

lemma draw_cong: "(\<And>i. i < k \<Longrightarrow> rnd i = rnd' i) \<Longrightarrow> draw rnd pool k = draw rnd' pool k"
proof (induction k arbitrary: pool)
  case 0
  then show ?case by simp
next
  case (Suc k)
  have "rnd k = rnd' k" using Suc.prems by simp
  moreover have "draw rnd p k = draw rnd' p k" for p
    using Suc.IH Suc.prems by simp
  ultimately show ?case by (simp add: Let_def)
qed

lemma draw_step:
  assumes "j < length pool" and "rnd k = j"
  shows "draw rnd pool (Suc k) = pool ! j # draw rnd (take j pool @ drop (Suc j) pool) k"
  using assms by (auto simp: Let_def)

lemma distinct_length_le:
  assumes "distinct xs" and "set xs \<subseteq> set pool"
  shows "length xs \<le> length pool"
proof -
  have "length xs = card (set xs)" using assms(1) by (simp add: distinct_card)
  also have "\<dots> \<le> card (set pool)" using assms(2) by (simp add: card_mono)
  also have "\<dots> \<le> length pool" by (rule card_length)
  finally show ?thesis .
qed

lemma remove_at_set_eq:
  assumes "distinct pool" and "j < length pool"
  shows "set (take j pool @ drop (Suc j) pool) = set pool - {pool ! j}"
proof -
  have p: "pool = take j pool @ pool ! j # drop (Suc j) pool"
    using assms(2) by (simp add: id_take_nth_drop)
  have "pool ! j \<notin> set (take j pool @ drop (Suc j) pool)"
    using assms by (rule remove_at_notin)
  moreover have "set pool = insert (pool ! j) (set (take j pool @ drop (Suc j) pool))"
    by (subst p) auto
  ultimately show ?thesis by auto
qed

lemma draw_exists:
  "distinct pool \<Longrightarrow> distinct xs \<Longrightarrow> set xs \<subseteq> set pool \<Longrightarrow> length xs = k \<Longrightarrow>
   \<exists>rnd. choices (length pool) k rnd \<and> draw rnd pool k = xs"
proof (induction k arbitrary: pool xs)
  case 0
  then have "choices (length pool) 0 (\<lambda>i. 0) \<and> draw (\<lambda>i. 0) pool 0 = xs"
    by (simp add: choices_def)
  then show ?case by blast
next
  case (Suc k)
  from Suc.prems(4) obtain x xs' where xs: "xs = x # xs'" and len: "length xs' = k"
    by (cases xs) auto
  from Suc.prems(3) xs have "x \<in> set pool" by simp
  then obtain j where j: "j < length pool" "pool ! j = x" by (auto simp: in_set_conv_nth)
  let ?rest = "take j pool @ drop (Suc j) pool"
  have rest: "distinct ?rest" using Suc.prems(1) by (rule remove_at_distinct)
  have "set ?rest = set pool - {x}" using Suc.prems(1) j remove_at_set_eq by blast
  moreover have "distinct xs'" "x \<notin> set xs'" using Suc.prems(2) xs by simp_all
  ultimately have sub: "set xs' \<subseteq> set ?rest" using Suc.prems(3) xs by auto
  have lrest: "length ?rest = length pool - 1" using j by simp
  from Suc.IH [OF rest \<open>distinct xs'\<close> sub len] obtain rnd' where
    c: "choices (length ?rest) k rnd'" and d: "draw rnd' ?rest k = xs'" by blast
  let ?rnd = "rnd'(k := j)"
  have "draw ?rnd ?rest k = draw rnd' ?rest k" by (rule draw_cong) simp
  with d j have "draw ?rnd pool (Suc k) = xs"
    using draw_step [of j pool ?rnd k] xs by simp
  moreover have "choices (length pool) (Suc k) ?rnd"
    unfolding choices_def
  proof (intro allI conjI impI)
    fix i assume "i < Suc k"
    show "?rnd i + Suc k \<le> length pool + i"
    proof (cases "i = k")
      case True
      then show ?thesis using j by simp
    next
      case False
      with \<open>i < Suc k\<close> have "i < k" by simp
      with c have "rnd' i + k \<le> length ?rest + i" by (simp add: choices_def)
      with lrest j False show ?thesis by simp
    qed
  next
    fix i assume "Suc k \<le> i"
    with c show "?rnd i = 0" by (simp add: choices_def)
  qed
  ultimately show ?case by blast
qed

lemma draw_unique:
  "distinct pool \<Longrightarrow> k \<le> length pool \<Longrightarrow>
   choices (length pool) k rnd1 \<Longrightarrow> choices (length pool) k rnd2 \<Longrightarrow>
   draw rnd1 pool k = draw rnd2 pool k \<Longrightarrow> rnd1 = rnd2"
proof (induction k arbitrary: pool rnd1 rnd2)
  case 0
  then show ?case by (auto simp: choices_def)
next
  case (Suc k)
  from Suc.prems(2) have ne: "pool \<noteq> []" by auto
  have b1: "rnd1 k < length pool" using Suc.prems(3) [unfolded choices_def, rule_format, of k] by simp
  have b2: "rnd2 k < length pool" using Suc.prems(4) [unfolded choices_def, rule_format, of k] by simp
  let ?r1 = "take (rnd1 k) pool @ drop (Suc (rnd1 k)) pool"
  let ?r2 = "take (rnd2 k) pool @ drop (Suc (rnd2 k)) pool"
  have e1: "draw rnd1 pool (Suc k) = pool ! rnd1 k # draw rnd1 ?r1 k"
    using b1 by (rule draw_step) simp
  have e2: "draw rnd2 pool (Suc k) = pool ! rnd2 k # draw rnd2 ?r2 k"
    using b2 by (rule draw_step) simp
  from Suc.prems(5) e1 e2 have hd: "pool ! rnd1 k = pool ! rnd2 k"
    and tl: "draw rnd1 ?r1 k = draw rnd2 ?r2 k" by simp_all
  from hd Suc.prems(1) b1 b2 have top: "rnd1 k = rnd2 k"
    by (simp add: nth_eq_iff_index_eq)
  let ?s1 = "rnd1(k := 0)" and ?s2 = "rnd2(k := 0)"
  have lr: "length ?r1 = length pool - 1" using b1 by simp
  have c1: "choices (length ?r1) k ?s1"
    unfolding choices_def
  proof (intro allI conjI impI)
    fix i assume "i < k"
    with Suc.prems(3) [unfolded choices_def, rule_format, of i] lr ne
    show "?s1 i + k \<le> length ?r1 + i" by (cases pool) auto
  next
    fix i assume "k \<le> i"
    with Suc.prems(3) [unfolded choices_def, rule_format, of i]
    show "?s1 i = 0" by (cases "i = k") auto
  qed
  have c2: "choices (length ?r1) k ?s2"
    unfolding choices_def
  proof (intro allI conjI impI)
    fix i assume "i < k"
    with Suc.prems(4) [unfolded choices_def, rule_format, of i] lr ne
    show "?s2 i + k \<le> length ?r1 + i" by (cases pool) auto
  next
    fix i assume "k \<le> i"
    with Suc.prems(4) [unfolded choices_def, rule_format, of i]
    show "?s2 i = 0" by (cases "i = k") auto
  qed
  have "draw ?s1 ?r1 k = draw rnd1 ?r1 k" by (rule draw_cong) simp
  moreover have "draw ?s2 ?r1 k = draw rnd2 ?r1 k" by (rule draw_cong) simp
  ultimately have "draw ?s1 ?r1 k = draw ?s2 ?r1 k" using tl top by simp
  moreover have "distinct ?r1" using Suc.prems(1) by (rule remove_at_distinct)
  moreover have "k \<le> length ?r1" using Suc.prems(2) lr by simp
  ultimately have "?s1 = ?s2" using c1 c2 Suc.IH [of ?r1 ?s1 ?s2] by blast
  then have "rnd1 i = rnd2 i" for i
    using top by (cases "i = k") (auto dest: fun_cong [of _ _ i])
  then show ?case by (rule ext)
qed

lemma draw_one_choice_per_sample:
  assumes "distinct xs" and "set xs \<subseteq> {..<n}"
  shows "\<exists>!rnd. choices n (length xs) rnd \<and> draw rnd [0..<n] (length xs) = xs"
proof -
  have sub: "set xs \<subseteq> set [0..<n]" using assms(2) by auto
  have le: "length xs \<le> length [0..<n]" using assms(1) sub by (rule distinct_length_le)
  have "\<exists>rnd. choices (length [0..<n]) (length xs) rnd \<and> draw rnd [0..<n] (length xs) = xs"
    using assms(1) sub by (intro draw_exists) simp_all
  then obtain rnd where r: "choices n (length xs) rnd" "draw rnd [0..<n] (length xs) = xs"
    by auto
  show ?thesis
  proof (rule ex1I [of _ rnd])
    show "choices n (length xs) rnd \<and> draw rnd [0..<n] (length xs) = xs" using r by simp
  next
    fix rnd' assume "choices n (length xs) rnd' \<and> draw rnd' [0..<n] (length xs) = xs"
    then show "rnd' = rnd"
      using r le draw_unique [of "[0..<n]" "length xs" rnd' rnd] by simp
  qed
qed

lemma random_sample_ok:
  assumes "0 \<le> k" and "k \<le> int n"
  shows "\<exists>indices. random_sample rnd n k = Inr indices \<and> int (length indices) = k
           \<and> distinct indices \<and> (\<forall>i\<in>set indices. i < n)"
proof -
  let ?ix = "draw rnd [0..<n] (nat k)"
  have "random_sample rnd n k = Inr ?ix" using assms by (simp add: random_sample_def)
  moreover have "int (length ?ix) = k" using assms by (simp add: draw_length)
  moreover have "distinct ?ix" by (simp add: draw_distinct)
  moreover have "\<forall>i\<in>set ?ix. i < n" using draw_subset [of rnd "[0..<n]" "nat k"] by auto
  ultimately show ?thesis by blast
qed

lemma on_epoch_end_validation_data:
  "on_epoch_end self lrn w epoch sl ms = Inr (w', self') \<Longrightarrow>
   validation_data self' = validation_data self"
  by (auto simp: on_epoch_end_def save_best_def split: sum.splits option.splits if_splits)

lemma step_validation_data:
  assumes "step s c = Inr s'" and "i < length (observers s)"
  shows "i < length (observers s') \<and>
         validation_data (fst (observers s' ! i)) = validation_data (fst (observers s ! i))"
proof (cases c)
  case (New rnd lrn a)
  with assms show ?thesis by (auto simp: nth_append split: sum.splits)
next
  case (Train_begin j)
  with assms show ?thesis
    by (auto simp: on_train_begin_def Let_def nth_list_update split: if_splits prod.splits)
next
  case (Epoch_end j epoch sl ms)
  show ?thesis
  proof (cases "j < length (observers s)")
    case False
    with assms Epoch_end show ?thesis by simp
  next
    case True
    obtain self lrn where ob: "observers s ! j = (self, lrn)"
      by (cases "observers s ! j")
    with assms(1) Epoch_end True obtain w' self' where
      r: "on_epoch_end self lrn (world_of s) epoch sl ms = Inr (w', self')" and
      s': "s' = \<lparr>world_of = w', observers = (observers s)[j := (self', lrn)]\<rparr>"
      by (auto split: sum.splits)
    from r have "validation_data self' = validation_data self"
      by (rule on_epoch_end_validation_data)
    with s' ob assms(2) True show ?thesis by (cases "i = j") simp_all
  qed
next
  case (Train_end j)
  with assms show ?thesis
    by (auto simp: nth_list_update split: if_splits prod.splits)
next
  case (Fit j lrn')
  with assms show ?thesis by (auto simp: nth_list_update split: if_splits)
qed

lemma run_validation_data:
  "i < length (observers s) \<Longrightarrow>
   i < length (observers (run s cs)) \<and>
   validation_data (fst (observers (run s cs) ! i)) = validation_data (fst (observers s ! i))"
proof (induction cs arbitrary: s)
  case Nil
  then show ?case by simp
next
  case (Cons c cs)
  show ?case
  proof (cases "step s c")
    case (Inl e)
    with Cons show ?thesis by simp
  next
    case (Inr s')
    with Cons.prems step_validation_data [of s c s' i]
    have "i < length (observers s')"
      and "validation_data (fst (observers s' ! i)) = validation_data (fst (observers s ! i))"
      by blast+
    with Cons.IH [of s'] Inr show ?thesis by simp
  qed
qed

text \<open>
  C6 (as amended). With an active run, \<open>data_type\<close> set and no sample set supplied, a
  requested count that is not negative makes the constructor succeed and store the
  validation items at the indices that \<^verbatim>\<open>random.sample\<close> draws from its random source:
  \<open>min(requested, size of the validation set)\<close> of them, pairwise different and within the
  validation set. A negative count makes the draw, and the constructor, raise
  \<^verbatim>\<open>ValueError\<close>. No later call changes the stored sample set: not a single
  \<^verbatim>\<open>on_epoch_end\<close>, and no sequence of calls in a process that holds the observer.
  Every list of that many different indices of the validation set is the draw of exactly
  one sequence of choices, so that choices made uniformly give each sample the same
  probability.
\<close>

theorem sample_drawn_once_at_construction:
  assumes "wandb_run w \<noteq> None"
    and "truthy (arg_data_type a)"
    and "\<not> truthy (arg_validation_data a)"
  shows "(0 \<le> arg_predictions a \<longrightarrow>
           (\<exists>self indices.
              WandbCallback_init w rnd lrn a = Inr self
            \<and> random_sample rnd (length (valid_ds lrn)) (sample_count lrn a) = Inr indices
            \<and> validation_data self = Some (map (\<lambda>i. valid_ds lrn ! i) indices)
            \<and> int (length indices) = min (arg_predictions a) (int (length (valid_ds lrn)))
            \<and> distinct indices
            \<and> (\<forall>i\<in>set indices. i < length (valid_ds lrn))
            \<and> (\<forall>lrn' w' epoch smooth_loss last_metrics w'' self'.
                  on_epoch_end self lrn' w' epoch smooth_loss last_metrics = Inr (w'', self')
                  \<longrightarrow> validation_data self' = validation_data self)
            \<and> (\<forall>s cs. validation_data
                          (fst (observers
                                  (run (s\<lparr>observers := observers s @ [(self, lrn)]\<rparr>) cs)
                                  ! length (observers s)))
                        = validation_data self)
            \<and> (\<forall>xs. distinct xs \<and> set xs \<subseteq> {..<length (valid_ds lrn)}
                     \<and> int (length xs) = sample_count lrn a
                   \<longrightarrow> (\<exists>!r. choices (length (valid_ds lrn)) (length xs) r
                             \<and> random_sample r (length (valid_ds lrn)) (sample_count lrn a)
                                 = Inr xs))))
         \<and> (arg_predictions a < 0 \<longrightarrow>
              WandbCallback_init w rnd lrn a =
                Inl (ValueError ''Sample larger than population or is negative''))"
proof (intro conjI impI)
  assume neg: "arg_predictions a < 0"
  from assms(1) obtain dir where "wandb_run w = Some dir" by auto
  with assms(2,3) neg
  show "WandbCallback_init w rnd lrn a =
          Inl (ValueError ''Sample larger than population or is negative'')"
    by (simp add: WandbCallback_init_def random_sample_def sample_count_def)
next
  assume nonneg: "0 \<le> arg_predictions a"
  let ?n = "length (valid_ds lrn)"
  let ?k = "sample_count lrn a"
  have k: "0 \<le> ?k" "?k \<le> int ?n" using nonneg by (simp_all add: sample_count_def)
  from random_sample_ok [OF k, of rnd] obtain indices where
    ix: "random_sample rnd ?n ?k = Inr indices" "int (length indices) = ?k"
        "distinct indices" "\<forall>i\<in>set indices. i < ?n"
    by blast
  from assms(1) obtain dir where dir: "wandb_run w = Some dir" by auto
  define self where "self =
     \<lparr>save_model = arg_save_model a, model_path = path_join dir ''bestmodel.pth'',
      log_opt = arg_log a, data_type = arg_data_type a, best = None,
      validation_data = Some (map (\<lambda>i. valid_ds lrn ! i) indices),
      monitor = arg_monitor a, operator = mode_operator (arg_mode a) (arg_monitor a)\<rparr>"
  have init: "WandbCallback_init w rnd lrn a = Inr self"
    using assms(2,3) dir ix(1) by (simp add: WandbCallback_init_def self_def)
  have vd: "validation_data self = Some (map (\<lambda>i. valid_ds lrn ! i) indices)"
    by (simp add: self_def)
  have stable: "validation_data
                  (fst (observers (run (s\<lparr>observers := observers s @ [(self, lrn)]\<rparr>) cs)
                          ! length (observers s)))
                = validation_data self" for s cs
    using run_validation_data
            [of "length (observers s)" "s\<lparr>observers := observers s @ [(self, lrn)]\<rparr>" cs]
    by simp
  have uniform: "\<exists>!r. choices ?n (length xs) r \<and> random_sample r ?n ?k = Inr xs"
    if xs: "distinct xs \<and> set xs \<subseteq> {..<?n} \<and> int (length xs) = ?k" for xs
  proof -
    from xs have "\<exists>!r. choices ?n (length xs) r \<and> draw r [0..<?n] (length xs) = xs"
      by (intro draw_one_choice_per_sample) simp_all
    moreover from xs have "nat ?k = length xs" by linarith
    then have "random_sample r ?n ?k = Inr (draw r [0..<?n] (length xs))" for r
      using k by (simp add: random_sample_def)
    ultimately show ?thesis by simp
  qed
  have "WandbCallback_init w rnd lrn a = Inr self
      \<and> random_sample rnd (length (valid_ds lrn)) (sample_count lrn a) = Inr indices
      \<and> validation_data self = Some (map (\<lambda>i. valid_ds lrn ! i) indices)
      \<and> int (length indices) = min (arg_predictions a) (int (length (valid_ds lrn)))
      \<and> distinct indices
      \<and> (\<forall>i\<in>set indices. i < length (valid_ds lrn))
      \<and> (\<forall>lrn' w' epoch smooth_loss last_metrics w'' self'.
            on_epoch_end self lrn' w' epoch smooth_loss last_metrics = Inr (w'', self')
            \<longrightarrow> validation_data self' = validation_data self)
      \<and> (\<forall>s cs. validation_data
                    (fst (observers
                            (run (s\<lparr>observers := observers s @ [(self, lrn)]\<rparr>) cs)
                            ! length (observers s)))
                  = validation_data self)
      \<and> (\<forall>xs. distinct xs \<and> set xs \<subseteq> {..<length (valid_ds lrn)}
               \<and> int (length xs) = sample_count lrn a
             \<longrightarrow> (\<exists>!r. choices (length (valid_ds lrn)) (length xs) r
                       \<and> random_sample r (length (valid_ds lrn)) (sample_count lrn a)
                           = Inr xs))"
  proof (intro conjI allI impI)
    show "WandbCallback_init w rnd lrn a = Inr self" by (rule init)
    show "random_sample rnd (length (valid_ds lrn)) (sample_count lrn a) = Inr indices"
      by (rule ix(1))
    show "validation_data self = Some (map (\<lambda>i. valid_ds lrn ! i) indices)" by (rule vd)
    show "int (length indices) = min (arg_predictions a) (int (length (valid_ds lrn)))"
      using ix(2) by (simp add: sample_count_def)
    show "distinct indices" by (rule ix(3))
    show "\<forall>i\<in>set indices. i < length (valid_ds lrn)" by (rule ix(4))
  next
    fix lrn' w' epoch smooth_loss last_metrics w'' self'
    assume "on_epoch_end self lrn' w' epoch smooth_loss last_metrics = Inr (w'', self')"
    then show "validation_data self' = validation_data self"
      by (rule on_epoch_end_validation_data)
  next
    fix s cs
    show "validation_data
            (fst (observers (run (s\<lparr>observers := observers s @ [(self, lrn)]\<rparr>) cs)
                    ! length (observers s)))
          = validation_data self" by (rule stable)
  next
    fix xs
    assume "distinct xs \<and> set xs \<subseteq> {..<length (valid_ds lrn)}
            \<and> int (length xs) = sample_count lrn a"
    then show "\<exists>!r. choices (length (valid_ds lrn)) (length xs) r
                 \<and> random_sample r (length (valid_ds lrn)) (sample_count lrn a) = Inr xs"
      by (rule uniform)
  qed
  then show "\<exists>self indices.
              WandbCallback_init w rnd lrn a = Inr self
            \<and> random_sample rnd (length (valid_ds lrn)) (sample_count lrn a) = Inr indices
            \<and> validation_data self = Some (map (\<lambda>i. valid_ds lrn ! i) indices)
            \<and> int (length indices) = min (arg_predictions a) (int (length (valid_ds lrn)))
            \<and> distinct indices
            \<and> (\<forall>i\<in>set indices. i < length (valid_ds lrn))
            \<and> (\<forall>lrn' w' epoch smooth_loss last_metrics w'' self'.
                  on_epoch_end self lrn' w' epoch smooth_loss last_metrics = Inr (w'', self')
                  \<longrightarrow> validation_data self' = validation_data self)
            \<and> (\<forall>s cs. validation_data
                          (fst (observers
                                  (run (s\<lparr>observers := observers s @ [(self, lrn)]\<rparr>) cs)
                                  ! length (observers s)))
                        = validation_data self)
            \<and> (\<forall>xs. distinct xs \<and> set xs \<subseteq> {..<length (valid_ds lrn)}
                     \<and> int (length xs) = sample_count lrn a
                   \<longrightarrow> (\<exists>!r. choices (length (valid_ds lrn)) (length xs) r
                             \<and> random_sample r (length (valid_ds lrn)) (sample_count lrn a)
                                 = Inr xs))"
    by blast
qed

text \<open>
  Two of three validation items are requested: the random source draws the indices 0
  and 2, and their items are stored. A count of -5 is refused.
\<close>

theorem sample_drawn_once_at_construction_witness:
  "wandb_run ex_world \<noteq> None
   \<and> truthy (arg_data_type (default_args\<lparr>arg_predictions := 2\<rparr>))
   \<and> \<not> truthy (arg_validation_data (default_args\<lparr>arg_predictions := 2\<rparr>))
   \<and> 0 \<le> arg_predictions (default_args\<lparr>arg_predictions := 2\<rparr>)
   \<and> random_sample ex_rnd (length (valid_ds ex_learner))
         (sample_count ex_learner (default_args\<lparr>arg_predictions := 2\<rparr>)) = Inr [0, 2]
   \<and> (\<exists>self. WandbCallback_init ex_world ex_rnd ex_learner (default_args\<lparr>arg_predictions := 2\<rparr>)
                = Inr self
              \<and> validation_data self = Some [(''img0'', ''cat''), (''img2'', ''cat'')])
   \<and> arg_predictions (default_args\<lparr>arg_predictions := - 5\<rparr>) < 0
   \<and> WandbCallback_init ex_world ex_rnd ex_learner (default_args\<lparr>arg_predictions := - 5\<rparr>) =
       Inl (ValueError ''Sample larger than population or is negative'')"
  using sample_drawn_once_at_construction
          [of ex_world "default_args\<lparr>arg_predictions := 2\<rparr>" ex_rnd ex_learner]
        sample_drawn_once_at_construction
          [of ex_world "default_args\<lparr>arg_predictions := - 5\<rparr>" ex_rnd ex_learner]
  by (simp add: model_simps ex_world_def ex_rnd_def random_sample_def sample_count_def
                numeral_2_eq_2)

text \<open>
  C6 as stated fails: with sampling enabled, no sample set supplied and
  \<^verbatim>\<open>predictions=-2\<close>, no sample of \<open>min(-2, 3)\<close> indices is drawn; the constructor raises.
\<close>

theorem sample_negative_count_counterexample:
  "wandb_run ex_world \<noteq> None
   \<and> truthy (arg_data_type (default_args\<lparr>arg_predictions := - 2\<rparr>))
   \<and> \<not> truthy (arg_validation_data (default_args\<lparr>arg_predictions := - 2\<rparr>))
   \<and> isl (WandbCallback_init ex_world ex_rnd ex_learner (default_args\<lparr>arg_predictions := - 2\<rparr>))"
  by (simp add: model_simps ex_world_def random_sample_def sample_count_def)

subsection \<open>Construction\<close>

text \<open>
  C3 (as amended). Without an active run the constructor raises the \<^verbatim>\<open>ValueError\<close> that
  asks for \<^verbatim>\<open>wandb.init()\<close>; it has no access to the process state other than reading
  \<^verbatim>\<open>wandb.run\<close>. With an active run it succeeds, unless a sample has to be drawn
  (\<open>data_type\<close> set, no non-empty \<open>validation_data\<close>) and the requested count is negative:
  then it raises the \<^verbatim>\<open>ValueError\<close> of the draw.
\<close>

theorem construction_needs_active_run:
  "(wandb_run w = None \<longrightarrow>
      WandbCallback_init w rnd lrn a =
        Inl (ValueError ''You must call wandb.init() before WandbCallback()''))
   \<and> (wandb_run w \<noteq> None \<longrightarrow>
        (if truthy (arg_data_type a) \<and> \<not> truthy (arg_validation_data a)
            \<and> arg_predictions a < 0
         then WandbCallback_init w rnd lrn a =
                Inl (ValueError ''Sample larger than population or is negative'')
         else \<exists>self. WandbCallback_init w rnd lrn a = Inr self))"
  by (auto simp: WandbCallback_init_def random_sample_def sample_count_def Let_def
           split: option.splits sum.splits if_splits)

text \<open>The default arguments, without a run and with one; then a count of -3.\<close>

theorem construction_needs_active_run_witness:
  "wandb_run (ex_world\<lparr>wandb_run := None\<rparr>) = None
   \<and> WandbCallback_init (ex_world\<lparr>wandb_run := None\<rparr>) ex_rnd ex_learner default_args =
       Inl (ValueError ''You must call wandb.init() before WandbCallback()'')
   \<and> wandb_run ex_world \<noteq> None
   \<and> \<not> isl (WandbCallback_init ex_world ex_rnd ex_learner default_args)
   \<and> WandbCallback_init ex_world ex_rnd ex_learner (default_args\<lparr>arg_predictions := - 3\<rparr>) =
       Inl (ValueError ''Sample larger than population or is negative'')"
  using construction_needs_active_run
          [where w = "ex_world\<lparr>wandb_run := None\<rparr>" and rnd = ex_rnd and lrn = ex_learner
             and a = default_args]
        construction_needs_active_run
          [where w = ex_world and rnd = ex_rnd and lrn = ex_learner and a = default_args]
        construction_needs_active_run
          [where w = ex_world and rnd = ex_rnd and lrn = ex_learner
             and a = "default_args\<lparr>arg_predictions := - 3\<rparr>"]
  by (auto simp: ex_world_def default_args_def)

text \<open>
  C3 as stated fails: with an active run and \<^verbatim>\<open>predictions=-1\<close> the draw of the sample
  raises.
\<close>

theorem construction_with_run_counterexample:
  "wandb_run ex_world \<noteq> None
   \<and> WandbCallback_init ex_world ex_rnd ex_learner (default_args\<lparr>arg_predictions := - 1\<rparr>) =
       Inl (ValueError ''Sample larger than population or is negative'')"
  by (simp add: model_simps ex_world_def random_sample_def sample_count_def)

lemma contains_sublist: "contains sub s = sublist sub s"
  by (induction s) (simp_all add: sublist_Cons_right)

lemma contains_iff: "contains sub s \<longleftrightarrow> (\<exists>p t. s = p @ sub @ t)"
  by (simp add: contains_sublist sublist_def)

text \<open>
  C9. In auto mode the resolved mode is min when the monitor name contains "loss" or
  "error" and max otherwise; min and max are used as given; "val_loss" resolves to min
  and "accuracy" to max. The constructor hands its \<open>monitor\<close> and \<open>mode\<close> arguments to
  this resolution, and the stored comparison is the resolved one.
\<close>

theorem auto_mode_resolution:
  "resolve_mode Auto mon =
     (if (\<exists>p t. mon = p @ ''loss'' @ t) \<or> (\<exists>p t. mon = p @ ''error'' @ t) then Min else Max)
   \<and> resolve_mode Min mon = Min
   \<and> resolve_mode Max mon = Max
   \<and> resolve_mode Auto ''val_loss'' = Min
   \<and> resolve_mode Auto ''accuracy'' = Max
   \<and> (case WandbCallback_init w rnd lrn a of
         Inl e \<Rightarrow> True
       | Inr self \<Rightarrow>
           monitor self = arg_monitor a
           \<and> operator self =
               (if resolve_mode (arg_mode a) (arg_monitor a) = Min then Less else Greater))"
proof -
  have "resolve_mode Auto mon =
     (if (\<exists>p t. mon = p @ ''loss'' @ t) \<or> (\<exists>p t. mon = p @ ''error'' @ t) then Min else Max)"
    by (simp add: resolve_mode_def contains_iff)
  moreover have "resolve_mode Min mon = Min" "resolve_mode Max mon = Max"
    by (simp_all add: resolve_mode_def)
  moreover have "resolve_mode Auto ''val_loss'' = Min" "resolve_mode Auto ''accuracy'' = Max"
    by (simp_all add: resolve_mode_def)
  moreover have "case WandbCallback_init w rnd lrn a of
         Inl e \<Rightarrow> True
       | Inr self \<Rightarrow>
           monitor self = arg_monitor a
           \<and> operator self =
               (if resolve_mode (arg_mode a) (arg_monitor a) = Min then Less else Greater)"
    by (auto simp: WandbCallback_init_def mode_operator_def Let_def
             split: sum.splits option.splits)
  ultimately show ?thesis by (intro conjI) assumption+
qed

text \<open>
  C2 (as amended). The constructor leaves \<open>best\<close> unset (\<^verbatim>\<open>None\<close>). \<^verbatim>\<open>on_train_begin\<close>
  sets it to +infinity in min mode and to -infinity in max mode, on every call.
\<close>

theorem best_set_by_on_train_begin:
  "(WandbCallback_init w rnd lrn a = Inr self \<longrightarrow>
      best self = None
      \<and> best (snd (on_train_begin self lrn' w')) =
          Some (if resolve_mode (arg_mode a) (arg_monitor a) = Min then PosInf else NegInf))
   \<and> best (snd (on_train_begin cb lrn' w')) =
       Some (if operator cb = Less then PosInf else NegInf)"
  by (auto simp: WandbCallback_init_def on_train_begin_def initial_best_def mode_operator_def
                 Let_def
           split: option.splits sum.splits if_splits)

text \<open>An observer of the validation loss in auto mode.\<close>

theorem best_set_by_on_train_begin_witness:
  "WandbCallback_init ex_world ex_rnd ex_learner ex_args = Inr (ex_callback\<lparr>best := None\<rparr>)
   \<and> best (ex_callback\<lparr>best := None\<rparr>) = None
   \<and> best (snd (on_train_begin (ex_callback\<lparr>best := None\<rparr>) ex_learner ex_world)) = Some PosInf"
  using best_set_by_on_train_begin
          [where w = ex_world and rnd = ex_rnd and lrn = ex_learner and a = ex_args
             and self = "ex_callback\<lparr>best := None\<rparr>" and lrn' = ex_learner and w' = ex_world
             and cb = ex_callback]
  by (simp add: model_simps ex_world_def ex_callback_def)

text \<open>C2 as stated fails: in min mode \<open>best\<close> is not +infinity after construction.\<close>

theorem best_at_construction_counterexample:
  "resolve_mode (arg_mode (ex_args\<lparr>arg_mode := Min\<rparr>)) (arg_monitor (ex_args\<lparr>arg_mode := Min\<rparr>)) = Min
   \<and> \<not> isl (WandbCallback_init ex_world ex_rnd ex_learner (ex_args\<lparr>arg_mode := Min\<rparr>))
   \<and> best (projr (WandbCallback_init ex_world ex_rnd ex_learner (ex_args\<lparr>arg_mode := Min\<rparr>)))
       \<noteq> Some PosInf"
  by (simp add: model_simps ex_world_def)

subsection \<open>Prediction samples\<close>

lemma truthy_nonempty: "truthy (Some xs) = (xs \<noteq> [])"
  by (cases xs) simp_all

lemma random_sample_length:
  assumes "random_sample rnd n k = Inr indices"
  shows "int (length indices) = k"
proof -
  from assms have k: "0 \<le> k" "k \<le> int n" and ix: "indices = draw rnd [0..<n] (nat k)"
    by (auto simp: random_sample_def split: if_splits)
  then show ?thesis by (simp add: draw_length)
qed

lemma init_sample_set_nonempty:
  assumes "WandbCallback_init w rnd lrn a = Inr cb"
  shows "truthy (validation_data cb) =
           (truthy (arg_validation_data a)
            \<or> truthy (arg_data_type a) \<and> 0 < arg_predictions a \<and> valid_ds lrn \<noteq> [])"
proof (cases "truthy (arg_data_type a) \<and> \<not> truthy (arg_validation_data a)")
  case False
  with assms show ?thesis
    by (auto simp: WandbCallback_init_def Let_def split: option.splits)
next
  case True
  with assms obtain indices where
    ix: "random_sample rnd (length (valid_ds lrn)) (sample_count lrn a) = Inr indices" and
    vd: "validation_data cb = Some (map (\<lambda>i. valid_ds lrn ! i) indices)"
    by (auto simp: WandbCallback_init_def Let_def split: option.splits sum.splits)
  from ix have "int (length indices) = sample_count lrn a" by (rule random_sample_length)
  then have "0 < length indices \<longleftrightarrow> 0 < sample_count lrn a" by linarith
  also have "\<dots> \<longleftrightarrow> 0 < arg_predictions a \<and> 0 < length (valid_ds lrn)"
    by (simp add: sample_count_def)
  finally have "indices \<noteq> [] \<longleftrightarrow> 0 < arg_predictions a \<and> valid_ds lrn \<noteq> []"
    by simp
  with True vd show ?thesis by (simp add: truthy_nonempty)
qed

lemma on_epoch_end_prediction_samples:
  assumes "on_epoch_end self lrn w epoch smooth_loss last_metrics = Inr (w', self')"
  shows "List.map_filter prediction_samples (new_effects w w') =
           (if truthy (validation_data self)
            then [pred_log_of lrn (items_of (validation_data self)) []] else [])"
  using assms
  by (auto simp: on_epoch_end_def save_best_def log_metrics_def log_predictions_def
                 new_effects_def
           split: sum.splits option.splits if_splits)

text \<open>
  C10 (as amended). An \<^verbatim>\<open>on_epoch_end\<close> that returns emits the field "Prediction Samples"
  exactly when the stored sample set is non-empty, and then once, with the predictions
  of scalar shape (possibly none). The stored set is non-empty exactly when a non-empty
  \<open>validation_data\<close> was given, or \<open>data_type\<close> is set and both the requested count and
  the validation set are non-empty: an explicit empty list counts as no list.
\<close>

theorem prediction_samples_iff_sample_set:
  "(case on_epoch_end self lrn w epoch smooth_loss last_metrics of
      Inl e \<Rightarrow> save_model self \<and> best self = None
    | Inr (w', self') \<Rightarrow>
        List.map_filter prediction_samples (new_effects w w') =
          (if truthy (validation_data self)
           then [pred_log_of lrn (items_of (validation_data self)) []] else []))
   \<and> (WandbCallback_init w0 rnd lrn0 a = Inr cb \<longrightarrow>
        truthy (validation_data cb) =
          (truthy (arg_validation_data a)
           \<or> truthy (arg_data_type a) \<and> 0 < arg_predictions a \<and> valid_ds lrn0 \<noteq> []))"
proof (intro conjI impI)
  show "case on_epoch_end self lrn w epoch smooth_loss last_metrics of
      Inl e \<Rightarrow> save_model self \<and> best self = None
    | Inr (w', self') \<Rightarrow>
        List.map_filter prediction_samples (new_effects w w') =
          (if truthy (validation_data self)
           then [pred_log_of lrn (items_of (validation_data self)) []] else [])"
    using on_epoch_end_error [of self lrn w epoch smooth_loss last_metrics]
          on_epoch_end_prediction_samples [of self lrn w epoch smooth_loss last_metrics]
    by (cases "on_epoch_end self lrn w epoch smooth_loss last_metrics") auto
next
  assume "WandbCallback_init w0 rnd lrn0 a = Inr cb"
  then show "truthy (validation_data cb) =
          (truthy (arg_validation_data a)
           \<or> truthy (arg_data_type a) \<and> 0 < arg_predictions a \<and> valid_ds lrn0 \<noteq> [])"
    by (rule init_sample_set_nonempty)
qed

text \<open>With \<open>data_type\<close> off, an explicit empty list stays and nothing is emitted.\<close>

theorem prediction_samples_iff_sample_set_witness:
  "WandbCallback_init ex_world ex_rnd ex_learner
     (default_args\<lparr>arg_data_type := None, arg_validation_data := Some []\<rparr>) = Inr ex_silent
   \<and> \<not> truthy (validation_data ex_silent)
   \<and> emitted_prediction_samples ex_silent ex_learner ex_world 1 (Fin 6) [Fin 5, Fin (1/2)] = []"
  using prediction_samples_iff_sample_set
          [where self = ex_silent and lrn = ex_learner and w = ex_world and epoch = 1
             and smooth_loss = "Fin 6" and last_metrics = "[Fin 5, Fin (1/2)]"
             and w0 = ex_world and rnd = ex_rnd and lrn0 = ex_learner
             and a = "default_args\<lparr>arg_data_type := None, arg_validation_data := Some []\<rparr>"
             and cb = ex_silent]
  by (simp add: model_simps ex_world_def ex_silent_def emitted_prediction_samples_def
                new_effects_def logs_of_def dict_of_def)

text \<open>
  C10 as stated fails: with the default \<open>data_type\<close>, an explicit empty list is replaced
  by a drawn sample, and its predictions are emitted.
\<close>

theorem explicit_empty_list_counterexample:
  "\<not> isl (WandbCallback_init ex_world ex_rnd ex_learner
             (default_args\<lparr>arg_validation_data := Some [], arg_predictions := 1\<rparr>))
   \<and> emitted_prediction_samples
        (projr (WandbCallback_init ex_world ex_rnd ex_learner
                  (default_args\<lparr>arg_validation_data := Some [], arg_predictions := 1\<rparr>)))
        ex_learner ex_world 1 (Fin 6) [Fin 5, Fin (1/2)] =
       [[Image ''img1'' (caption_of ''dog'' ''cat'')]]"
  by (simp add: model_simps ex_world_def ex_rnd_def emitted_prediction_samples_def
                new_effects_def random_sample_def sample_count_def logs_of_def dict_of_def)

subsection \<open>The metric record\<close>

lemma fold_upd_other:
  "k \<notin> fst ` set ps \<Longrightarrow> fold (\<lambda>(k, v) d. d(k \<mapsto> v)) ps m k = m k"
  by (induction ps arbitrary: m) auto

lemma fold_upd_dom:
  "dom (fold (\<lambda>(k, v) d. d(k \<mapsto> v)) ps m) = dom m \<union> fst ` set ps"
  by (induction ps arbitrary: m) auto

lemma fold_upd_zip_nth:
  assumes "i < length xs" and "i < length ys"
    and "\<forall>j. i < j \<and> j < length xs \<and> j < length ys \<longrightarrow> xs ! j \<noteq> xs ! i"
  shows "fold (\<lambda>(k, v) d. d(k \<mapsto> v)) (zip xs ys) m (xs ! i) = Some (ys ! i)"
  using assms
proof (induction xs arbitrary: ys i m)
  case Nil
  then show ?case by simp
next
  case (Cons x xs)
  then obtain y ys' where ys: "ys = y # ys'" by (cases ys) auto
  show ?case
  proof (cases i)
    case 0
    have "x \<notin> fst ` set (zip xs ys')"
    proof
      assume "x \<in> fst ` set (zip xs ys')"
      then obtain v where "(x, v) \<in> set (zip xs ys')" by auto
      then obtain j where j: "j < length xs" "j < length ys'" "xs ! j = x"
        by (auto simp: in_set_zip)
      with Cons.prems(3) [rule_format, of "Suc j"] 0 ys show False by simp
    qed
    then have "fold (\<lambda>(k, v) d. d(k \<mapsto> v)) (zip xs ys') (m(x \<mapsto> y)) x = (m(x \<mapsto> y)) x"
      by (rule fold_upd_other)
    also have "\<dots> = Some y" by simp
    finally show ?thesis using 0 ys by (simp del: fun_upd_apply)
  next
    case (Suc i')
    have "\<forall>j. i' < j \<and> j < length xs \<and> j < length ys' \<longrightarrow> xs ! j \<noteq> xs ! i'"
    proof (intro allI impI)
      fix j assume "i' < j \<and> j < length xs \<and> j < length ys'"
      with Cons.prems(3) [rule_format, of "Suc j"] Suc ys show "xs ! j \<noteq> xs ! i'" by simp
    qed
    with Cons.IH [of i' ys' "m(x \<mapsto> y)"] Cons.prems(1,2) Suc ys show ?thesis
      by (simp del: fun_upd_apply)
  qed
qed

lemma dict_of_map_of: "dict_of ps = map_of (rev ps)"
proof -
  have "fold (\<lambda>(k, v) d. d(k \<mapsto> v)) ps m = m ++ map_of (rev ps)" for m :: "'a \<Rightarrow> 'b option"
    by (induction ps arbitrary: m) (auto simp: map_add_upd_left)
  then show ?thesis by (simp add: dict_of_def)
qed

lemma logs_of_zip:
  "logs_of lrn epoch smooth_loss last_metrics =
     dict_of (zip (drop 1 (recorder_names lrn)) (FloatS smooth_loss # map FloatS last_metrics))"
  by (simp add: logs_of_def drop_zip)

lemma on_epoch_end_committed:
  assumes "on_epoch_end self lrn w epoch smooth_loss last_metrics = Inr (w', self')"
  shows "List.map_filter committed_record (new_effects w w') =
           [map_option Stat \<circ> logs_of lrn epoch smooth_loss last_metrics]"
  using assms
  by (auto simp: on_epoch_end_def save_best_def log_metrics_def log_predictions_def
                 new_effects_def
           split: sum.splits option.splits if_splits)

lemma zip_keys:
  "fst ` set (zip xs ys) = {xs ! i | i. i < length xs \<and> i < length ys}"
proof (intro equalityI subsetI)
  fix k assume "k \<in> fst ` set (zip xs ys)"
  then obtain v where "(k, v) \<in> set (zip xs ys)" by auto
  then obtain i where "xs ! i = k" "i < length xs" "i < length ys"
    by (auto simp: in_set_zip)
  then show "k \<in> {xs ! i | i. i < length xs \<and> i < length ys}" by blast
next
  fix k assume "k \<in> {xs ! i | i. i < length xs \<and> i < length ys}"
  then obtain i where i: "k = xs ! i" "i < length xs" "i < length ys" by blast
  then have "(k, ys ! i) \<in> set (zip xs ys)" by (auto simp: in_set_zip)
  then show "k \<in> fst ` set (zip xs ys)" by force
qed

lemma logs_of_dom:
  "dom (logs_of lrn epoch smooth_loss last_metrics) =
     {recorder_names lrn ! i | i.
        1 \<le> i \<and> i < length (recorder_names lrn) \<and> i < 2 + length last_metrics}"
proof -
  let ?names = "recorder_names lrn"
  have "dom (logs_of lrn epoch smooth_loss last_metrics) =
          {drop 1 ?names ! i | i. i < length (drop 1 ?names) \<and> i < Suc (length last_metrics)}"
    by (simp add: logs_of_zip dict_of_def fold_upd_dom zip_keys del: drop_Suc_Cons)
  also have "\<dots> = {?names ! i | i. 1 \<le> i \<and> i < length ?names \<and> i < 2 + length last_metrics}"
  proof (intro equalityI subsetI)
    fix k assume "k \<in> {drop 1 ?names ! i | i. i < length (drop 1 ?names) \<and> i < Suc (length last_metrics)}"
    then obtain i where "k = drop 1 ?names ! i" "i < length (drop 1 ?names)"
      "i < Suc (length last_metrics)" by blast
    then have "k = ?names ! Suc i \<and> 1 \<le> Suc i \<and> Suc i < length ?names
                 \<and> Suc i < 2 + length last_metrics" by simp
    then show "k \<in> {?names ! i | i. 1 \<le> i \<and> i < length ?names \<and> i < 2 + length last_metrics}"
      by blast
  next
    fix k assume "k \<in> {?names ! i | i. 1 \<le> i \<and> i < length ?names \<and> i < 2 + length last_metrics}"
    then obtain i where i: "k = ?names ! i" "1 \<le> i" "i < length ?names"
      "i < 2 + length last_metrics" by blast
    then obtain i' where "i = Suc i'" by (cases i) auto
    with i have "k = drop 1 ?names ! i' \<and> i' < length (drop 1 ?names)
                   \<and> i' < Suc (length last_metrics)" by simp
    then show "k \<in> {drop 1 ?names ! i | i. i < length (drop 1 ?names) \<and> i < Suc (length last_metrics)}"
      by blast
  qed
  finally show ?thesis .
qed

lemma logs_of_nth:
  assumes "1 \<le> i" and "i < length (recorder_names lrn)" and "i < 2 + length last_metrics"
    and "\<forall>j. i < j \<and> j < length (recorder_names lrn) \<and> j < 2 + length last_metrics
             \<longrightarrow> recorder_names lrn ! j \<noteq> recorder_names lrn ! i"
  shows "logs_of lrn epoch smooth_loss last_metrics (recorder_names lrn ! i) =
           Some (([IntS epoch, FloatS smooth_loss] @ map FloatS last_metrics) ! i)"
proof -
  let ?names = "recorder_names lrn"
  let ?vals = "FloatS smooth_loss # map FloatS last_metrics"
  from assms(1) obtain i' where i': "i = Suc i'" by (cases i) auto
  have a: "i' < length (drop 1 ?names)" using assms(2) i' by simp
  have b: "i' < length ?vals" using assms(3) i' by simp
  have c: "\<forall>j. i' < j \<and> j < length (drop 1 ?names) \<and> j < length ?vals
               \<longrightarrow> drop 1 ?names ! j \<noteq> drop 1 ?names ! i'"
  proof (intro allI impI)
    fix j assume j: "i' < j \<and> j < length (drop 1 ?names) \<and> j < length ?vals"
    then have "i < Suc j \<and> Suc j < length ?names \<and> Suc j < 2 + length last_metrics"
      using i' by auto
    then have "?names ! Suc j \<noteq> ?names ! i" using assms(4) by blast
    then show "drop 1 ?names ! j \<noteq> drop 1 ?names ! i'" using j i' assms(2) by simp
  qed
  have "fold (\<lambda>(k, v) d. d(k \<mapsto> v)) (zip (drop 1 ?names) ?vals) Map.empty (drop 1 ?names ! i')
          = Some (?vals ! i')"
    using a b c by (rule fold_upd_zip_nth)
  moreover have "drop 1 ?names ! i' = ?names ! i" using assms(2) i' by simp
  moreover have "?vals ! i' = ([IntS epoch, FloatS smooth_loss] @ map FloatS last_metrics) ! i"
    using i' by simp
  ultimately show ?thesis by (simp add: logs_of_zip dict_of_def del: drop_Suc_Cons fun_upd_apply)
qed

lemma logs_of_example:
  "logs_of ex_learner 2 (Fin (1/4)) [Fin (3/10), Fin (9/10)] =
     [''train_loss'' \<mapsto> FloatS (Fin (1/4)), ''valid_loss'' \<mapsto> FloatS (Fin (3/10)),
      ''accuracy'' \<mapsto> FloatS (Fin (9/10))]"
  by (rule ext) (simp add: logs_of_def dict_of_def ex_learner_def)

text \<open>
  C4 (as amended). An \<^verbatim>\<open>on_epoch_end\<close> that returns commits one record, \<open>logs_of\<close>. Its
  names are the recorder's names at the positions from 1 on that the value sequence
  \<^verbatim>\<open>[epoch, smooth_loss] + last_metrics\<close> reaches; a name at such a position that does
  not occur again later within reach has the value at its position. For the names
  \<^verbatim>\<open>epoch, train_loss, valid_loss, accuracy\<close>, metrics 0.3 and 0.9, epoch 2 and smooth
  loss 0.25, the record is \<^verbatim>\<open>{train_loss: 0.25, valid_loss: 0.3, accuracy: 0.9}\<close>.
\<close>

theorem metric_record_is_zip_without_first:
  "(case on_epoch_end self lrn w epoch smooth_loss last_metrics of
      Inl e \<Rightarrow> save_model self \<and> best self = None
    | Inr (w', self') \<Rightarrow>
        List.map_filter committed_record (new_effects w w') =
          [map_option Stat \<circ> logs_of lrn epoch smooth_loss last_metrics])
   \<and> dom (logs_of lrn epoch smooth_loss last_metrics) =
       {recorder_names lrn ! i | i.
          1 \<le> i \<and> i < length (recorder_names lrn) \<and> i < 2 + length last_metrics}
   \<and> (1 \<le> i \<and> i < length (recorder_names lrn) \<and> i < 2 + length last_metrics
       \<and> (\<forall>j. i < j \<and> j < length (recorder_names lrn) \<and> j < 2 + length last_metrics
                \<longrightarrow> recorder_names lrn ! j \<noteq> recorder_names lrn ! i)
       \<longrightarrow> logs_of lrn epoch smooth_loss last_metrics (recorder_names lrn ! i) =
             Some (([IntS epoch, FloatS smooth_loss] @ map FloatS last_metrics) ! i))
   \<and> logs_of ex_learner 2 (Fin (1/4)) [Fin (3/10), Fin (9/10)] =
       [''train_loss'' \<mapsto> FloatS (Fin (1/4)), ''valid_loss'' \<mapsto> FloatS (Fin (3/10)),
        ''accuracy'' \<mapsto> FloatS (Fin (9/10))]"
proof -
  have "case on_epoch_end self lrn w epoch smooth_loss last_metrics of
          Inl e \<Rightarrow> save_model self \<and> best self = None
        | Inr (w', self') \<Rightarrow>
            List.map_filter committed_record (new_effects w w') =
              [map_option Stat \<circ> logs_of lrn epoch smooth_loss last_metrics]"
    using on_epoch_end_error on_epoch_end_committed by (auto split: sum.splits)
  moreover have "logs_of lrn epoch smooth_loss last_metrics (recorder_names lrn ! i) =
                   Some (([IntS epoch, FloatS smooth_loss] @ map FloatS last_metrics) ! i)"
    if "1 \<le> i \<and> i < length (recorder_names lrn) \<and> i < 2 + length last_metrics
        \<and> (\<forall>j. i < j \<and> j < length (recorder_names lrn) \<and> j < 2 + length last_metrics
                 \<longrightarrow> recorder_names lrn ! j \<noteq> recorder_names lrn ! i)"
  proof -
    from that have "1 \<le> i" and "i < length (recorder_names lrn)"
      and "i < 2 + length last_metrics"
      and "\<forall>j. i < j \<and> j < length (recorder_names lrn) \<and> j < 2 + length last_metrics
                \<longrightarrow> recorder_names lrn ! j \<noteq> recorder_names lrn ! i"
      by blast+
    then show ?thesis by (rule logs_of_nth)
  qed
  ultimately show ?thesis
    by (intro conjI impI) (assumption | rule logs_of_dom logs_of_example)+
qed

text \<open>With a fifth name, "time", the fourth is still logged with the last metric.\<close>

theorem metric_record_is_zip_without_first_witness:
  "(1::nat) \<le> 3 \<and> 3 < length (recorder_names ex_timed)
   \<and> (3::nat) < 2 + length [Fin (3/10), Fin (9/10)]
   \<and> recorder_names ex_timed ! 3 = ''accuracy''
   \<and> logs_of ex_timed 2 (Fin (1/4)) [Fin (3/10), Fin (9/10)] ''accuracy'' =
       Some (FloatS (Fin (9/10)))"
proof -
  have names: "recorder_names ex_timed =
                 [''epoch'', ''train_loss'', ''valid_loss'', ''accuracy'', ''time'']"
    by (simp add: ex_timed_def)
  have h: "1 \<le> (3::nat) \<and> 3 < length (recorder_names ex_timed)
           \<and> (3::nat) < 2 + length [Fin (3/10), Fin (9/10)]
           \<and> (\<forall>j. 3 < j \<and> j < length (recorder_names ex_timed)
                      \<and> j < 2 + length [Fin (3/10), Fin (9/10)]
                  \<longrightarrow> recorder_names ex_timed ! j \<noteq> recorder_names ex_timed ! 3)"
    by (simp add: names)
  have "logs_of ex_timed 2 (Fin (1/4)) [Fin (3/10), Fin (9/10)] (recorder_names ex_timed ! 3) =
          Some (([IntS 2, FloatS (Fin (1/4))] @ map FloatS [Fin (3/10), Fin (9/10)]) ! 3)"
    using metric_record_is_zip_without_first
            [where self = ex_callback and lrn = ex_timed and w = ex_world and epoch = 2
               and smooth_loss = "Fin (1/4)" and last_metrics = "[Fin (3/10), Fin (9/10)]"
               and i = 3] h
    by blast
  then show ?thesis using h by (simp add: names)
qed

text \<open>
  C4 as stated fails: a name beyond the end of the value sequence is in the recorder's
  names, not the first, and not in the record.
\<close>

theorem metric_record_counterexample:
  "''time'' \<in> set (tl (recorder_names ex_timed))
   \<and> length (committed_records (ex_callback\<lparr>save_model := False\<rparr>) ex_timed ex_world 2
                (Fin (1/4)) [Fin (3/10), Fin (9/10)]) = 1
   \<and> hd (committed_records (ex_callback\<lparr>save_model := False\<rparr>) ex_timed ex_world 2
            (Fin (1/4)) [Fin (3/10), Fin (9/10)]) ''time'' = None"
  by (simp add: committed_records_def ex_timed_def model_simps ex_world_def ex_callback_def
                new_effects_def logs_of_def dict_of_def)

subsection \<open>The end of training\<close>

text \<open>
  C7. With checkpointing enabled, \<^verbatim>\<open>on_train_end\<close> with a file at \<open>model_path\<close> makes the
  file's contents the learner's model, by one \<^verbatim>\<open>learn.load\<close> with \<^verbatim>\<open>purge=False\<close>, and
  prints the notice with the path; without a file it changes nothing and makes no call.
  No call of \<^verbatim>\<open>learn.load\<close> it makes purges.
\<close>

theorem best_model_restored_at_train_end:
  assumes "save_model self"
  shows "(files w (model_path self) = Some contents \<longrightarrow>
            on_train_end self lrn w =
              (w\<lparr>trace := trace w @
                   [Load (model_path self) False,
                    Print (Loaded_best_saved_model (model_path self))]\<rparr>,
               lrn\<lparr>model := contents\<rparr>))
         \<and> (files w (model_path self) = None \<longrightarrow> on_train_end self lrn w = (w, lrn))
         \<and> filter is_purging_load (new_effects w (fst (on_train_end self lrn w))) = []"
  using assms by (auto simp: on_train_end_def new_effects_def split: option.splits)

text \<open>A run directory with a checkpoint, and one without.\<close>

theorem best_model_restored_at_train_end_witness:
  "save_model ex_callback
   \<and> files ex_saved (model_path ex_callback) = Some ''weights-0''
   \<and> on_train_end ex_callback ex_learner ex_saved =
       (ex_saved\<lparr>trace := [Load ''run/bestmodel.pth'' False,
                           Print (Loaded_best_saved_model ''run/bestmodel.pth'')]\<rparr>,
        ex_learner\<lparr>model := ''weights-0''\<rparr>)
   \<and> files ex_world (model_path ex_callback) = None
   \<and> on_train_end ex_callback ex_learner ex_world = (ex_world, ex_learner)"
  using best_model_restored_at_train_end
          [where self = ex_callback and w = ex_saved and contents = "''weights-0''"
             and lrn = ex_learner]
        best_model_restored_at_train_end
          [where self = ex_callback and w = ex_world and contents = "''weights-0''"
             and lrn = ex_learner]
  by (simp add: ex_callback_def ex_saved_def ex_world_def)

end
